theory Spec2Isabelle
  imports Main "HOL-Library.Word" "HOL-Library.AList"
begin

unbundle bit_operations_syntax

section \<open>Strings and bytes\<close>

text \<open>
  A Python \<open>str\<close> is a sequence of Unicode code points and is modelled as a list of
  natural numbers, so that \<open>len\<close> counts code points.  A Python \<open>bytes\<close> value is a
  list of 8-bit words.  \<open>py\<close> turns an ASCII literal into a \<open>str\<close>.
\<close>

type_synonym pystr = "nat list"
type_synonym byte = "8 word"

abbreviation (input) ord :: "char \<Rightarrow> nat" where
  "ord c \<equiv> of_char c"

definition py :: "string \<Rightarrow> pystr" where
  "py s = map of_char s"

text \<open>The exceptions that the program can meet, by the class the handlers tell apart.\<close>

datatype exn =
    RequestException
  | HTTPError nat
  | OSError
  | ValueError
  | UnicodeEncodeError

definition startswith :: "pystr \<Rightarrow> pystr \<Rightarrow> bool" where
  "startswith s p = (take (length p) s = p)"

text \<open>
  \<open>str.lower\<close>, on the ASCII letters.  The only code points outside ASCII whose
  lower-case form contains an ASCII character are U+0130 and U+212A (which gives \<open>k\<close>);
  no key of \<open>content_map\<close> contains \<open>k\<close> or a non-ASCII character, so the lookup
  below gives the result of the full Unicode mapping.
\<close>

definition lower :: "pystr \<Rightarrow> pystr" where
  "lower s = map (\<lambda>c. if 65 \<le> c \<and> c \<le> 90 then c + 32 else c) s"

text \<open>\<open>s.rfind(c) + 1\<close>: the index after the last occurrence of \<open>c\<close>, 0 when there is none.\<close>

definition rfind_plus1 :: "nat \<Rightarrow> pystr \<Rightarrow> nat" where
  "rfind_plus1 c s = length s - length (takeWhile (\<lambda>x. x \<noteq> c) (rev s))"

text \<open>\<open>s.split(sep)\<close> for a one-character separator.\<close>

fun split :: "nat \<Rightarrow> pystr \<Rightarrow> pystr list" where
  "split sep [] = [[]]"
| "split sep (c # cs) =
     (if c = sep then [] # split sep cs
      else (case split sep cs of
              [] \<Rightarrow> [[c]]
            | p # ps \<Rightarrow> (c # p) # ps))"

section \<open>ContentTyper: \<open>get_extension_from_content_type\<close>\<close>

definition content_map :: "(pystr \<times> pystr) list" where
  "content_map =
     [(py ''image/jpeg'', py ''.jpg''),
      (py ''image/jpg'', py ''.jpg''),
      (py ''image/png'', py ''.png''),
      (py ''image/gif'', py ''.gif''),
      (py ''image/webp'', py ''.webp''),
      (py ''image/svg+xml'', py ''.svg''),
      (py ''image/bmp'', py ''.bmp''),
      (py ''image/tiff'', py ''.tiff'')]"

definition get_extension_from_content_type :: "pystr option \<Rightarrow> pystr option" where
  "get_extension_from_content_type content_type =
     (case content_type of
        None \<Rightarrow> None
      | Some ct \<Rightarrow> if ct = [] then None else map_of content_map (lower ct))"

section \<open>The library calls of \<open>extract_filename\<close>\<close>

subsection \<open>\<open>urlparse(url).path\<close>\<close>

text \<open>
  \<open>urllib.parse.urlsplit\<close> as of CPython 3.11: leading C0 control characters and spaces
  are stripped, tab, carriage return and line feed are removed, then the scheme, the
  network location, the fragment and the query are split off; \<open>urlparse\<close> further cuts
  the parameters of the last path segment.
\<close>

definition is_ascii_alpha :: "nat \<Rightarrow> bool" where
  "is_ascii_alpha c = ((65 \<le> c \<and> c \<le> 90) \<or> (97 \<le> c \<and> c \<le> 122))"

definition is_scheme_char :: "nat \<Rightarrow> bool" where
  "is_scheme_char c =
     (is_ascii_alpha c \<or> (48 \<le> c \<and> c \<le> 57) \<or> c = ord CHR ''+'' \<or> c = ord CHR ''-''
      \<or> c = ord CHR ''.'')"

definition split_scheme :: "pystr \<Rightarrow> pystr \<times> pystr" where
  "split_scheme url =
     (let pre = takeWhile (\<lambda>c. c \<noteq> ord CHR '':'') url in
      if length pre < length url \<and> pre \<noteq> [] \<and> is_ascii_alpha (hd url)
         \<and> list_all is_scheme_char pre
      then (lower pre, drop (length pre + 1) url)
      else ([], url))"

definition is_netloc_delim :: "nat \<Rightarrow> bool" where
  "is_netloc_delim c = (c = ord CHR ''/'' \<or> c = ord CHR ''?'' \<or> c = ord CHR ''#'')"

definition splitnetloc :: "pystr \<Rightarrow> pystr \<times> pystr" where
  "splitnetloc url =
     (if take 2 url = py ''//''
      then (takeWhile (\<lambda>c. \<not> is_netloc_delim c) (drop 2 url),
            dropWhile (\<lambda>c. \<not> is_netloc_delim c) (drop 2 url))
      else ([], url))"

text \<open>
  \<open>urlsplit\<close> raises \<open>ValueError\<close> on a network location with one bracket only.  For a
  bracketed host it then validates the IP literal, and for a non-ASCII network location
  it looks at the NFKC normal form; these two checks belong to the library and are the
  parameter \<open>netloc_ok\<close>, which is consulted in exactly those two cases.
\<close>

definition netloc_rejected :: "(pystr \<Rightarrow> bool) \<Rightarrow> pystr \<Rightarrow> bool" where
  "netloc_rejected netloc_ok netloc =
     (let lb = ord CHR ''['' \<in> set netloc; rb = ord CHR '']'' \<in> set netloc in
      (lb \<and> \<not> rb) \<or> (rb \<and> \<not> lb)
      \<or> (((lb \<and> rb) \<or> (\<exists>c \<in> set netloc. 128 \<le> c)) \<and> \<not> netloc_ok netloc))"

definition uses_params :: "pystr list" where
  "uses_params =
     [py '''', py ''ftp'', py ''hdl'', py ''prospero'', py ''http'', py ''imap'',
      py ''https'', py ''shttp'', py ''rtsp'', py ''rtsps'', py ''rtspu'', py ''sip'',
      py ''sips'', py ''mms'', py ''sftp'', py ''tel'']"

definition splitparams :: "pystr \<Rightarrow> pystr" where
  "splitparams url =
     (let i = rfind_plus1 (ord CHR ''/'') url in
      take i url @ takeWhile (\<lambda>c. c \<noteq> ord CHR '';'') (drop i url))"

definition urlparse_path :: "(pystr \<Rightarrow> bool) \<Rightarrow> pystr \<Rightarrow> exn + pystr" where
  "urlparse_path netloc_ok url0 =
     (let url1 = dropWhile (\<lambda>c. c \<le> 32) url0;
          url2 = filter (\<lambda>c. c \<noteq> 9 \<and> c \<noteq> 13 \<and> c \<noteq> 10) url1;
          (scheme, url3) = split_scheme url2;
          (netloc, url4) = splitnetloc url3;
          url5 = takeWhile (\<lambda>c. c \<noteq> ord CHR ''#'') url4;
          url6 = takeWhile (\<lambda>c. c \<noteq> ord CHR ''?'') url5
      in if netloc_rejected netloc_ok netloc then Inl ValueError
         else if scheme \<in> set uses_params then Inr (splitparams url6)
         else Inr url6)"

subsection \<open>\<open>unquote\<close>\<close>

definition hexval :: "nat \<Rightarrow> nat option" where
  "hexval c =
     (if 48 \<le> c \<and> c \<le> 57 then Some (c - 48)
      else if 65 \<le> c \<and> c \<le> 70 then Some (c - 55)
      else if 97 \<le> c \<and> c \<le> 102 then Some (c - 87)
      else None)"

text \<open>
  \<open>unquote_to_bytes\<close> on an ASCII string: a percent sign followed by two hexadecimal
  digits becomes the byte they denote, everything else stands for itself.
\<close>

fun unquote_to_bytes :: "pystr \<Rightarrow> nat list" where
  "unquote_to_bytes (p # a # b # rest) =
     (case (p = ord CHR ''%'', hexval a, hexval b) of
        (True, Some h, Some l) \<Rightarrow> (16 * h + l) # unquote_to_bytes rest
      | _ \<Rightarrow> p # unquote_to_bytes (a # b # rest))"
| "unquote_to_bytes (p # rest) = p # unquote_to_bytes rest"
| "unquote_to_bytes [] = []"

text \<open>
  \<open>bytes.decode('utf-8', 'replace')\<close>.  One step reads the first byte \<open>b\<close> and the bytes
  \<open>bs\<close> after it and gives a code point and the number of bytes it stands for; an
  ill-formed or truncated sequence gives U+FFFD for the bytes read so far.
\<close>

definition is_cont :: "nat \<Rightarrow> bool" where
  "is_cont b = (128 \<le> b \<and> b < 192)"

definition utf8_step :: "nat \<Rightarrow> nat list \<Rightarrow> nat \<times> nat" where
  "utf8_step b bs =
     (if b < 0x80 then (b, 1)
      else if b < 0xC2 then (0xFFFD, 1)
      else if b < 0xE0 then
        (case bs of
           [] \<Rightarrow> (0xFFFD, 1)
         | b2 # _ \<Rightarrow>
             if is_cont b2 then ((b - 0xC0) * 64 + (b2 - 0x80), 2) else (0xFFFD, 1))
      else if b < 0xF0 then
        (case bs of
           [] \<Rightarrow> (0xFFFD, 1)
         | b2 # bs2 \<Rightarrow>
             if \<not> is_cont b2 \<or> (b = 0xE0 \<and> b2 < 0xA0) \<or> (b = 0xED \<and> 0xA0 \<le> b2)
             then (0xFFFD, 1)
             else (case bs2 of
                     [] \<Rightarrow> (0xFFFD, 2)
                   | b3 # _ \<Rightarrow>
                       if is_cont b3
                       then ((b - 0xE0) * 4096 + (b2 - 0x80) * 64 + (b3 - 0x80), 3)
                       else (0xFFFD, 2)))
      else if b < 0xF5 then
        (case bs of
           [] \<Rightarrow> (0xFFFD, 1)
         | b2 # bs2 \<Rightarrow>
             if \<not> is_cont b2 \<or> (b = 0xF0 \<and> b2 < 0x90) \<or> (b = 0xF4 \<and> 0x90 \<le> b2)
             then (0xFFFD, 1)
             else (case bs2 of
                     [] \<Rightarrow> (0xFFFD, 2)
                   | b3 # bs3 \<Rightarrow>
                       if \<not> is_cont b3 then (0xFFFD, 2)
                       else (case bs3 of
                               [] \<Rightarrow> (0xFFFD, 3)
                             | b4 # _ \<Rightarrow>
                                 if is_cont b4
                                 then ((b - 0xF0) * 262144 + (b2 - 0x80) * 4096
                                       + (b3 - 0x80) * 64 + (b4 - 0x80), 4)
                                 else (0xFFFD, 3))))
      else (0xFFFD, 1))"

fun utf8_decode :: "nat list \<Rightarrow> pystr" where
  "utf8_decode [] = []"
| "utf8_decode (b # bs) =
     fst (utf8_step b bs) # utf8_decode (drop (snd (utf8_step b bs) - 1) bs)"

text \<open>
  \<open>unquote\<close> leaves a string without a percent sign alone.  Otherwise every maximal run
  of ASCII characters is percent-decoded to bytes and the bytes are decoded as UTF-8;
  the characters outside ASCII are kept.
\<close>

function unquote_parts :: "pystr \<Rightarrow> pystr" where
  "unquote_parts [] = []"
| "unquote_parts (c # cs) =
     (if c < 128
      then utf8_decode (unquote_to_bytes (c # takeWhile (\<lambda>x. x < 128) cs))
           @ unquote_parts (dropWhile (\<lambda>x. x < 128) cs)
      else c # unquote_parts cs)"
  by pat_completeness auto
termination
  by (relation "measure length") (auto simp: le_imp_less_Suc length_dropWhile_le)

definition unquote :: "pystr \<Rightarrow> pystr" where
  "unquote s = (if ord CHR ''%'' \<in> set s then unquote_parts s else s)"

subsection \<open>\<open>os.path.basename\<close>\<close>

definition basename :: "pystr \<Rightarrow> pystr" where
  "basename p = drop (rfind_plus1 (ord CHR ''/'') p) p"

subsection \<open>\<open>str.encode\<close> (UTF-8)\<close>

text \<open>
  A surrogate code point has no UTF-8 encoding: \<open>encode\<close> raises \<open>UnicodeEncodeError\<close>.
  (A number above 0x10FFFF is no code point of a \<open>str\<close>; it is refused in the same way.)
\<close>

definition utf8_encode_cp :: "nat \<Rightarrow> byte list option" where
  "utf8_encode_cp c =
     (if c < 0x80 then Some [of_nat c]
      else if c < 0x800 then Some [of_nat (0xC0 + c div 64), of_nat (0x80 + c mod 64)]
      else if 0xD800 \<le> c \<and> c \<le> 0xDFFF then None
      else if c < 0x10000 then
        Some [of_nat (0xE0 + c div 4096), of_nat (0x80 + c div 64 mod 64),
              of_nat (0x80 + c mod 64)]
      else if c < 0x110000 then
        Some [of_nat (0xF0 + c div 262144), of_nat (0x80 + c div 4096 mod 64),
              of_nat (0x80 + c div 64 mod 64), of_nat (0x80 + c mod 64)]
      else None)"

fun encode :: "pystr \<Rightarrow> exn + byte list" where
  "encode [] = Inr []"
| "encode (c # cs) =
     (case utf8_encode_cp c of
        None \<Rightarrow> Inl UnicodeEncodeError
      | Some bs \<Rightarrow> (case encode cs of Inl e \<Rightarrow> Inl e | Inr r \<Rightarrow> Inr (bs @ r)))"

subsection \<open>\<open>hashlib.md5\<close>\<close>

text \<open>MD5 as in RFC 1321, on 32-bit words; \<open>md5\<close> is the 16-byte digest.\<close>

definition md5_K :: "32 word list" where
  "md5_K =
     [0xd76aa478, 0xe8c7b756, 0x242070db, 0xc1bdceee,
      0xf57c0faf, 0x4787c62a, 0xa8304613, 0xfd469501,
      0x698098d8, 0x8b44f7af, 0xffff5bb1, 0x895cd7be,
      0x6b901122, 0xfd987193, 0xa679438e, 0x49b40821,
      0xf61e2562, 0xc040b340, 0x265e5a51, 0xe9b6c7aa,
      0xd62f105d, 0x02441453, 0xd8a1e681, 0xe7d3fbc8,
      0x21e1cde6, 0xc33707d6, 0xf4d50d87, 0x455a14ed,
      0xa9e3e905, 0xfcefa3f8, 0x676f02d9, 0x8d2a4c8a,
      0xfffa3942, 0x8771f681, 0x6d9d6122, 0xfde5380c,
      0xa4beea44, 0x4bdecfa9, 0xf6bb4b60, 0xbebfbc70,
      0x289b7ec6, 0xeaa127fa, 0xd4ef3085, 0x04881d05,
      0xd9d4d039, 0xe6db99e5, 0x1fa27cf8, 0xc4ac5665,
      0xf4292244, 0x432aff97, 0xab9423a7, 0xfc93a039,
      0x655b59c3, 0x8f0ccc92, 0xffeff47d, 0x85845dd1,
      0x6fa87e4f, 0xfe2ce6e0, 0xa3014314, 0x4e0811a1,
      0xf7537e82, 0xbd3af235, 0x2ad7d2bb, 0xeb86d391]"

definition md5_s :: "nat list" where
  "md5_s =
     [7, 12, 17, 22, 7, 12, 17, 22, 7, 12, 17, 22, 7, 12, 17, 22,
      5, 9, 14, 20, 5, 9, 14, 20, 5, 9, 14, 20, 5, 9, 14, 20,
      4, 11, 16, 23, 4, 11, 16, 23, 4, 11, 16, 23, 4, 11, 16, 23,
      6, 10, 15, 21, 6, 10, 15, 21, 6, 10, 15, 21, 6, 10, 15, 21]"

fun chunks :: "nat \<Rightarrow> 'a list \<Rightarrow> 'a list list" where
  "chunks n [] = []"
| "chunks n (x # xs) =
     (if n = 0 then [] else take n (x # xs) # chunks n (drop (n - 1) xs))"

definition le_bytes :: "nat \<Rightarrow> 'a::len word \<Rightarrow> byte list" where
  "le_bytes k w = map (\<lambda>i. ucast (drop_bit (8 * i) w)) [0..<k]"

definition le_word32 :: "byte list \<Rightarrow> 32 word" where
  "le_word32 bs = foldr (\<lambda>b acc. ucast b + push_bit 8 acc) bs 0"

definition md5_pad :: "byte list \<Rightarrow> byte list" where
  "md5_pad m =
     m @ [0x80] @ replicate ((119 - length m mod 64) mod 64) 0 @ le_bytes 8 (word_of_nat (8 * length m) :: 64 word)"

type_synonym md5_state = "32 word \<times> 32 word \<times> 32 word \<times> 32 word"

definition md5_round :: "32 word list \<Rightarrow> nat \<Rightarrow> md5_state \<Rightarrow> md5_state" where
  "md5_round M i st =
     (case st of (A, B, C, D) \<Rightarrow>
        let (F, g) =
              (if i < 16 then ((B AND C) OR (NOT B AND D), i)
               else if i < 32 then ((D AND B) OR (NOT D AND C), (5 * i + 1) mod 16)
               else if i < 48 then (B XOR C XOR D, (3 * i + 5) mod 16)
               else (C XOR (B OR NOT D), (7 * i) mod 16));
            F' = F + A + md5_K ! i + M ! g
        in (D, B + word_rotl (md5_s ! i) F', B, C))"

definition md5_chunk :: "byte list \<Rightarrow> md5_state \<Rightarrow> md5_state" where
  "md5_chunk chunk st =
     (case st of (a0, b0, c0, d0) \<Rightarrow>
        (case fold (md5_round (map le_word32 (chunks 4 chunk))) [0..<64] st of
           (A, B, C, D) \<Rightarrow> (a0 + A, b0 + B, c0 + C, d0 + D)))"

definition md5 :: "byte list \<Rightarrow> byte list" where
  "md5 m =
     (case fold md5_chunk (chunks 64 (md5_pad m))
             (0x67452301, 0xefcdab89, 0x98badcfe, 0x10325476) of
        (a0, b0, c0, d0) \<Rightarrow> concat (map (le_bytes 4) [a0, b0, c0, d0]))"

definition hexdigit :: "nat \<Rightarrow> nat" where
  "hexdigit d = (if d < 10 then 48 + d else 87 + d)"

definition hexdigest :: "byte list \<Rightarrow> pystr" where
  "hexdigest bs = concat (map (\<lambda>b. [hexdigit (unat b div 16), hexdigit (unat b mod 16)]) bs)"

section \<open>NameResolver: \<open>extract_filename\<close>\<close>

text \<open>
  The function raises what \<open>urlparse\<close> raises and, on the fallback path, what
  \<open>url.encode()\<close> raises.  It calls \<open>urlparse\<close>, \<open>unquote\<close>, \<open>os.path.basename\<close>,
  \<open>hashlib.md5\<close> and a constant table, makes no call into the operating system, sends no
  request and prints nothing: it takes no world and returns none.
\<close>

definition extract_filename :: "(pystr \<Rightarrow> bool) \<Rightarrow> pystr \<Rightarrow> pystr option \<Rightarrow> exn + pystr" where
  "extract_filename netloc_ok url content_type =
     (case urlparse_path netloc_ok url of
        Inl e \<Rightarrow> Inl e
      | Inr parsed_path \<Rightarrow>
          let path = unquote parsed_path;
              filename = basename path
          in if filename = [] \<or> ord CHR ''.'' \<notin> set filename \<or> length filename < 3 then
               (case encode url of
                  Inl e \<Rightarrow> Inl e
                | Inr url_bytes \<Rightarrow>
                    let url_hash = take 8 (hexdigest (md5 url_bytes));
                        extension =
                          (case get_extension_from_content_type content_type of
                             None \<Rightarrow> py ''.jpg''
                           | Some ext \<Rightarrow> if ext = [] then py ''.jpg'' else ext)
                    in Inr (py ''ubuntu_image_'' @ url_hash @ extension))
             else if ord CHR ''%'' \<in> set filename then Inr (unquote filename)
             else Inr filename)"

section \<open>The world: file system, network and output\<close>

text \<open>
  The file system maps an absolute path, given by its list of components, to a node;
  the root is the empty list and is a directory.  The order of the list is the order
  in which \<open>os.listdir\<close> reports the entries.  A regular file carries its bytes and
  whether it may be read and written.
\<close>

datatype node = Dir | File "byte list" bool bool

type_synonym filesystem = "(pystr list \<times> node) list"

text \<open>What the program prints, one constructor per \<open>print\<close> call of \<open>download_image\<close>.\<close>

datatype message =
    MsgInvalidURL
  | MsgConnecting pystr
  | MsgNotImage pystr
  | MsgSecurityHeaders
  | MsgHeaderPresent pystr pystr
  | MsgAlreadyExists "pystr option"
  | MsgFetched pystr nat
  | MsgSavedTo pystr
  | MsgConnectionError exn
  | MsgFileError exn
  | MsgUnexpectedError exn

datatype event =
    Print message
  | HttpGet pystr
  | Listdir pystr
  | Isfile pystr
  | ReadFile pystr
  | WriteFile pystr "byte list"
  | Getsize pystr

record world =
  fs :: filesystem
  cwd :: "pystr list"
  trace :: "event list"

record response =
  status_code :: nat
  headers :: "(pystr \<times> pystr) list"
  content :: "byte list"

definition emit :: "event \<Rightarrow> world \<Rightarrow> world" where
  "emit e w = w\<lparr>trace := trace w @ [e]\<rparr>"

text \<open>The events that happened between two worlds.\<close>

definition events_since :: "world \<Rightarrow> world \<Rightarrow> event list" where
  "events_since w w' = drop (length (trace w)) (trace w')"

fun is_write :: "event \<Rightarrow> bool" where
  "is_write (WriteFile p bs) = True"
| "is_write e = False"

subsection \<open>Paths\<close>

definition isdir :: "filesystem \<Rightarrow> pystr list \<Rightarrow> bool" where
  "isdir f p = (p = [] \<or> map_of f p = Some Dir)"

text \<open>
  Path resolution walks the components: every component is looked up in a directory,
  an empty component and \<open>.\<close> stay there, \<open>..\<close> goes to the parent.
\<close>

fun walk :: "filesystem \<Rightarrow> pystr list \<Rightarrow> pystr list \<Rightarrow> exn + pystr list" where
  "walk f cur [] = Inr cur"
| "walk f cur (c # cs) =
     (if \<not> isdir f cur then Inl OSError
      else if c = [] \<or> c = py ''.'' then walk f cur cs
      else if c = py ''..'' then walk f (butlast cur) cs
      else walk f (cur @ [c]) cs)"

definition resolve :: "world \<Rightarrow> pystr \<Rightarrow> exn + pystr list" where
  "resolve w p =
     (if 0 \<in> set p then Inl ValueError
      else if p = [] then Inl OSError
      else walk (fs w) (if hd p = ord CHR ''/'' then [] else cwd w) (split (ord CHR ''/'') p))"

definition os_path_join :: "pystr \<Rightarrow> pystr \<Rightarrow> pystr" where
  "os_path_join a b =
     (if startswith b (py ''/'') then b
      else if a = [] \<or> last a = ord CHR ''/'' then a @ b
      else a @ py ''/'' @ b)"

subsection \<open>The calls into the operating system\<close>

definition listing :: "filesystem \<Rightarrow> pystr list \<Rightarrow> pystr list" where
  "listing f d = map (\<lambda>e. last (fst e)) (filter (\<lambda>e. fst e \<noteq> [] \<and> butlast (fst e) = d) f)"

definition os_listdir :: "pystr \<Rightarrow> world \<Rightarrow> (exn + pystr list) \<times> world" where
  "os_listdir path w =
     (case resolve w path of
        Inl e \<Rightarrow> Inl e
      | Inr d \<Rightarrow> if isdir (fs w) d then Inr (listing (fs w) d) else Inl OSError,
      emit (Listdir path) w)"

text \<open>\<open>os.path.isfile\<close> never raises: every failure is the answer \<open>False\<close>.\<close>

definition os_path_isfile :: "pystr \<Rightarrow> world \<Rightarrow> bool \<times> world" where
  "os_path_isfile path w =
     (case resolve w path of
        Inl e \<Rightarrow> False
      | Inr q \<Rightarrow> (case map_of (fs w) q of Some (File bs r wr) \<Rightarrow> True | _ \<Rightarrow> False),
      emit (Isfile path) w)"

text \<open>\<open>open(path, 'rb')\<close> followed by \<open>read()\<close>.\<close>

definition read_file :: "pystr \<Rightarrow> world \<Rightarrow> (exn + byte list) \<times> world" where
  "read_file path w =
     (case resolve w path of
        Inl e \<Rightarrow> Inl e
      | Inr q \<Rightarrow>
          (case map_of (fs w) q of
             Some (File bs r wr) \<Rightarrow> if r then Inr bs else Inl OSError
           | _ \<Rightarrow> Inl OSError),
      emit (ReadFile path) w)"

text \<open>
  \<open>open(path, 'wb')\<close> followed by \<open>write(data)\<close>: an existing file keeps its place and
  its permissions, a new file is readable and writable and comes last.
\<close>

definition write_file :: "pystr \<Rightarrow> byte list \<Rightarrow> world \<Rightarrow> (exn + unit) \<times> world" where
  "write_file path data w =
     (let w' = emit (WriteFile path data) w in
      case resolve w path of
        Inl e \<Rightarrow> (Inl e, w')
      | Inr q \<Rightarrow>
          if isdir (fs w) q then (Inl OSError, w')
          else (case map_of (fs w) q of
                  Some (File bs r wr) \<Rightarrow>
                    if wr then (Inr (), w'\<lparr>fs := AList.update q (File data r wr) (fs w)\<rparr>)
                    else (Inl OSError, w')
                | _ \<Rightarrow> (Inr (), w'\<lparr>fs := AList.update q (File data True True) (fs w)\<rparr>)))"

text \<open>
  \<open>os.path.getsize\<close>.  The size of a directory depends on the file system; the program
  asks only for the size of the file that it has just written.
\<close>

definition os_path_getsize :: "pystr \<Rightarrow> world \<Rightarrow> (exn + nat) \<times> world" where
  "os_path_getsize path w =
     (case resolve w path of
        Inl e \<Rightarrow> Inl e
      | Inr q \<Rightarrow>
          (case map_of (fs w) q of
             Some (File bs r wr) \<Rightarrow> Inr (length bs)
           | Some Dir \<Rightarrow> Inr 4096
           | None \<Rightarrow> if q = [] then Inr 4096 else Inl OSError),
      emit (Getsize path) w)"

subsection \<open>The HTTP collaborator\<close>

text \<open>
  \<open>requests.get\<close> is the parameter \<open>get\<close>: for a URL it raises or gives a response.
  Calling it is an event.  The response headers are looked up without regard to case.
\<close>

definition requests_get ::
  "(pystr \<Rightarrow> exn + response) \<Rightarrow> pystr \<Rightarrow> world \<Rightarrow> (exn + response) \<times> world" where
  "requests_get get url w = (get url, emit (HttpGet url) w)"

definition raise_for_status :: "response \<Rightarrow> exn + unit" where
  "raise_for_status r =
     (if 400 \<le> status_code r \<and> status_code r < 600 then Inl (HTTPError (status_code r))
      else Inr ())"

definition headers_get :: "(pystr \<times> pystr) list \<Rightarrow> pystr \<Rightarrow> pystr option" where
  "headers_get hs name = map_of (map (\<lambda>(k, v). (lower k, v)) hs) (lower name)"

section \<open>DuplicateIndex: \<open>is_duplicate_image\<close>\<close>

text \<open>
  The loop over the directory listing.  \<open>except IOError: continue\<close> catches \<open>OSError\<close>
  only; any other exception leaves the function.
\<close>

fun scan ::
  "pystr \<Rightarrow> pystr \<Rightarrow> pystr list \<Rightarrow> world \<Rightarrow> (exn + bool \<times> pystr option) \<times> world" where
  "scan directory content_hash [] w = (Inr (False, None), w)"
| "scan directory content_hash (existing_file # rest) w =
     (let existing_path = os_path_join directory existing_file in
      case os_path_isfile existing_path w of
        (isf, w1) \<Rightarrow>
          if isf then
            (case read_file existing_path w1 of
               (Inr data, w2) \<Rightarrow>
                 if hexdigest (md5 data) = content_hash
                 then (Inr (True, Some existing_file), w2)
                 else scan directory content_hash rest w2
             | (Inl e, w2) \<Rightarrow>
                 if e = OSError then scan directory content_hash rest w2 else (Inl e, w2))
          else scan directory content_hash rest w1)"

definition is_duplicate_image ::
  "pystr \<Rightarrow> byte list \<Rightarrow> world \<Rightarrow> (exn + bool \<times> pystr option) \<times> world" where
  "is_duplicate_image directory contents w =
     (let content_hash = hexdigest (md5 contents) in
      case os_listdir directory w of
        (Inl e, w1) \<Rightarrow> (Inl e, w1)
      | (Inr names, w1) \<Rightarrow> scan directory content_hash names w1)"

section \<open>FetchPipeline: \<open>download_image\<close>\<close>

definition security_headers :: "pystr list" where
  "security_headers =
     [py ''X-Content-Type-Options'', py ''Content-Security-Policy'', py ''X-Frame-Options'']"

fun report_headers :: "response \<Rightarrow> pystr list \<Rightarrow> world \<Rightarrow> world" where
  "report_headers r [] w = w"
| "report_headers r (header # rest) w =
     (case headers_get (headers r) header of
        None \<Rightarrow> report_headers r rest w
      | Some v \<Rightarrow>
          if v \<noteq> [] then report_headers r rest (emit (Print (MsgHeaderPresent header v)) w)
          else report_headers r rest w)"

text \<open>\<open>response.headers.get('Content-Type', '').split(';')[0]\<close>\<close>

definition content_type_of :: "response \<Rightarrow> pystr" where
  "content_type_of r =
     hd (split (ord CHR '';'')
           (case headers_get (headers r) (py ''Content-Type'') of None \<Rightarrow> [] | Some v \<Rightarrow> v))"

text \<open>The body of the \<open>try\<close> statement.\<close>

definition try_download ::
  "(pystr \<Rightarrow> bool) \<Rightarrow> (pystr \<Rightarrow> exn + response) \<Rightarrow> pystr \<Rightarrow> pystr \<Rightarrow> world
     \<Rightarrow> (exn + bool) \<times> world" where
  "try_download netloc_ok get url directory w =
     (case requests_get get url w of
        (Inl e, w1) \<Rightarrow> (Inl e, w1)
      | (Inr r, w1) \<Rightarrow>
          (case raise_for_status r of
             Inl e \<Rightarrow> (Inl e, w1)
           | Inr u \<Rightarrow>
               let content_type = content_type_of r in
               if \<not> startswith content_type (py ''image/'')
               then (Inr False, emit (Print (MsgNotImage content_type)) w1)
               else
                 let w2 = report_headers r security_headers (emit (Print MsgSecurityHeaders) w1)
                 in case extract_filename netloc_ok url (Some content_type) of
                      Inl e \<Rightarrow> (Inl e, w2)
                    | Inr filename \<Rightarrow>
                        let filepath = os_path_join directory filename in
                        (case is_duplicate_image directory (content r) w2 of
                           (Inl e, w3) \<Rightarrow> (Inl e, w3)
                         | (Inr (is_duplicate, existing_file), w3) \<Rightarrow>
                             if is_duplicate
                             then (Inr True, emit (Print (MsgAlreadyExists existing_file)) w3)
                             else
                               (case write_file filepath (content r) w3 of
                                  (Inl e, w4) \<Rightarrow> (Inl e, w4)
                                | (Inr u, w4) \<Rightarrow>
                                    (case os_path_getsize filepath w4 of
                                       (Inl e, w5) \<Rightarrow> (Inl e, w5)
                                     | (Inr file_size, w5) \<Rightarrow>
                                         (Inr True,
                                          emit (Print (MsgSavedTo directory))
                                            (emit (Print (MsgFetched filename file_size))
                                               w5)))))))"

text \<open>
  The three \<open>except\<close> clauses in their order: \<open>RequestException\<close> (of which \<open>HTTPError\<close>
  is a subclass), then \<open>IOError\<close>, then \<open>Exception\<close>.
\<close>

fun handler :: "exn \<Rightarrow> message" where
  "handler RequestException = MsgConnectionError RequestException"
| "handler (HTTPError n) = MsgConnectionError (HTTPError n)"
| "handler OSError = MsgFileError OSError"
| "handler e = MsgUnexpectedError e"

definition download_image ::
  "(pystr \<Rightarrow> bool) \<Rightarrow> (pystr \<Rightarrow> exn + response) \<Rightarrow> pystr \<Rightarrow> pystr \<Rightarrow> world
     \<Rightarrow> bool \<times> world" where
  "download_image netloc_ok get url directory w =
     (if \<not> (startswith url (py ''http://'') \<or> startswith url (py ''https://''))
      then (False, emit (Print MsgInvalidURL) w)
      else
        case try_download netloc_ok get url directory (emit (Print (MsgConnecting url)) w) of
          (Inr b, w') \<Rightarrow> (b, w')
        | (Inl e, w') \<Rightarrow> (False, emit (Print (handler e)) w'))"

section \<open>Predicates used in the statements\<close>

text \<open>A name that a directory entry can have.\<close>

definition valid_name :: "pystr \<Rightarrow> bool" where
  "valid_name n =
     (n \<noteq> [] \<and> ord CHR ''/'' \<notin> set n \<and> 0 \<notin> set n \<and> n \<noteq> py ''.'' \<and> n \<noteq> py ''..'')"

text \<open>
  An entry of the directory matches a hash when it is a regular file, can be read, and
  the MD5 of its bytes is that hash.
\<close>

definition file_matches :: "pystr \<Rightarrow> pystr \<Rightarrow> world \<Rightarrow> pystr \<Rightarrow> bool" where
  "file_matches directory content_hash w n =
     (fst (os_path_isfile (os_path_join directory n) w)
      \<and> (case fst (read_file (os_path_join directory n) w) of
            Inl e \<Rightarrow> False
          | Inr data \<Rightarrow> hexdigest (md5 data) = content_hash))"

text \<open>
  Between \<open>w\<close> and \<open>w'\<close> only events were added, none of them a write, and the files
  are the same.
\<close>

definition quiet :: "world \<Rightarrow> world \<Rightarrow> bool" where
  "quiet w w' =
     (fs w' = fs w \<and> cwd w' = cwd w \<and> take (length (trace w)) (trace w') = trace w
      \<and> length (trace w) \<le> length (trace w') \<and> \<not> list_ex is_write (events_since w w'))"


text \<open>
  The world in which the duplicate scan of a call of \<open>download_image\<close> starts: the
  connection message, the request and the report on the security headers have happened.
\<close>

definition scan_start :: "response \<Rightarrow> pystr \<Rightarrow> world \<Rightarrow> world" where
  "scan_start r url w =
     report_headers r security_headers
       (emit (Print MsgSecurityHeaders) (emit (HttpGet url) (emit (Print (MsgConnecting url)) w)))"

text \<open>A lower-case hexadecimal digit, as \<open>hexdigest\<close> writes them.\<close>

definition is_hex_char :: "nat \<Rightarrow> bool" where
  "is_hex_char c = ((48 \<le> c \<and> c \<le> 57) \<or> (97 \<le> c \<and> c \<le> 102))"

section \<open>Example inputs\<close>

text \<open>
  A world where the working directory is the root and holds the empty directory
  \<open>Fetched_Images\<close>, and a response with a status, a content type and a body.
\<close>

definition example_world :: world where
  "example_world = \<lparr>fs = [([py ''Fetched_Images''], Dir)], cwd = [], trace = []\<rparr>"

definition example_response :: "nat \<Rightarrow> string \<Rightarrow> byte list \<Rightarrow> response" where
  "example_response st ct body =
     \<lparr>status_code = st, headers = [(py ''Content-Type'', py ct)], content = body\<rparr>"

text \<open>A URL whose path ends in \<open>cat.png\<close>, and a server that answers every request alike.\<close>

definition example_url :: pystr where
  "example_url = py ''http://h/pics/cat.png''"

definition example_get :: "nat \<Rightarrow> byte list \<Rightarrow> pystr \<Rightarrow> exn + response" where
  "example_get st body u = Inr (example_response st ''image/png'' body)"


definition scan_world :: world where
  "scan_world =
     \<lparr>fs = [([py ''Fetched_Images''], Dir),
             ([py ''Fetched_Images'', py ''a.png''], File [7] False True),
             ([py ''Fetched_Images'', py ''b.png''], File [1, 2, 3] True True)],
      cwd = [], trace = []\<rparr>"





section \<open>Facts about events\<close>

lemma events_since_emit [simp]: "events_since w (emit e w) = [e]"
  by (simp add: events_since_def emit_def)

lemma events_since_emit2 [simp]: "events_since w (emit e2 (emit e1 w)) = [e1, e2]"
  by (simp add: events_since_def emit_def)

lemma events_since_emit3 [simp]:
  "events_since w (emit e3 (emit e2 (emit e1 w))) = [e1, e2, e3]"
  by (simp add: events_since_def emit_def)

lemma fs_emit [simp]: "fs (emit e w) = fs w"
  by (simp add: emit_def)

lemma cwd_emit [simp]: "cwd (emit e w) = cwd w"
  by (simp add: emit_def)

section \<open>Path resolution\<close>

lemma split_not_Nil [simp]: "split sep s \<noteq> []"
  by (induction s) (auto split: list.splits)

lemma split_no_sep: "sep \<notin> set s \<Longrightarrow> split sep s = [s]"
  by (induction s) auto

lemma split_append_sep: "split sep (a @ sep # b) = split sep a @ split sep b"
  by (induction a) (auto split: list.splits)

lemma walk_append:
  "walk f cur (xs @ ys) = (case walk f cur xs of Inl e \<Rightarrow> Inl e | Inr c \<Rightarrow> walk f c ys)"
  by (induction xs arbitrary: cur) auto

lemma walk_name:
  "valid_name n \<Longrightarrow> walk f c [n] = (if isdir f c then Inr (c @ [n]) else Inl OSError)"
  by (auto simp: valid_name_def)

lemma walk_empty_component:
  "walk f c [[]] = (if isdir f c then Inr c else Inl OSError)"
  by simp

lemma walk_cong_isdir:
  "(\<And>p. isdir f p = isdir f' p) \<Longrightarrow> walk f c xs = walk f' c xs"
  by (induction xs arbitrary: c) auto

lemma resolve_join:
  assumes r: "resolve w directory = Inr d" and d: "isdir (fs w) d" and n: "valid_name n"
  shows "resolve w (os_path_join directory n) = Inr (d @ [n])"
proof -
  from r have dne: "directory \<noteq> []" and nul: "0 \<notin> set directory"
    by (auto simp: resolve_def split: if_splits)
  let ?start = "if hd directory = ord CHR ''/'' then [] else cwd w"
  from r dne nul have wd: "walk (fs w) ?start (split (ord CHR ''/'') directory) = Inr d"
    by (simp add: resolve_def)
  from n have ns: "\<not> startswith n (py ''/'')"
    by (cases n) (auto simp: valid_name_def startswith_def py_def)
  from n have sn: "split (ord CHR ''/'') n = [n]"
    by (intro split_no_sep) (simp add: valid_name_def)
  have wn: "walk (fs w) d [n] = Inr (d @ [n])"
    by (simp only: walk_name [OF n] d if_True)
  show ?thesis
  proof (cases "last directory = ord CHR ''/''")
    case True
    with dne obtain a where a: "directory = a @ [ord CHR ''/'']"
      by (metis append_butlast_last_id)
    have sd: "split (ord CHR ''/'') directory = split (ord CHR ''/'') a @ [[]]"
      unfolding a using split_append_sep [of "ord CHR ''/''" a "[]"] by simp
    from wd obtain c where c: "walk (fs w) ?start (split (ord CHR ''/'') a) = Inr c"
      and c2: "walk (fs w) c [[]] = Inr d"
      unfolding sd walk_append by (auto split: sum.splits)
    from c2 have cd: "c = d" by (auto split: if_splits)
    have j: "os_path_join directory n = a @ ord CHR ''/'' # n"
      using True dne ns by (simp add: os_path_join_def a)
    have hdj: "hd (a @ ord CHR ''/'' # n) = hd directory"
      unfolding a by (cases a) auto
    have "walk (fs w) ?start (split (ord CHR ''/'') (a @ ord CHR ''/'' # n)) = Inr (d @ [n])"
      unfolding split_append_sep sn walk_append c cd[symmetric] using wn cd by (simp del: walk.simps)
    moreover have "0 \<notin> set (a @ ord CHR ''/'' # n)"
      using nul n by (auto simp: a valid_name_def)
    ultimately show ?thesis
      unfolding j resolve_def hdj by simp
  next
    case False
    have j: "os_path_join directory n = directory @ ord CHR ''/'' # n"
      using False dne ns by (simp add: os_path_join_def py_def)
    have hdj: "hd (directory @ ord CHR ''/'' # n) = hd directory"
      using dne by simp
    have "walk (fs w) ?start (split (ord CHR ''/'') (directory @ ord CHR ''/'' # n)) = Inr (d @ [n])"
      unfolding split_append_sep sn walk_append wd using wn by (simp del: walk.simps)
    moreover have "0 \<notin> set (directory @ ord CHR ''/'' # n)"
      using nul n by (auto simp: valid_name_def)
    ultimately show ?thesis
      unfolding j resolve_def hdj by simp
  qed
qed

section \<open>The duplicate scan\<close>

lemma quiet_refl [simp]: "quiet w w"
  by (simp add: quiet_def events_since_def)

lemma quiet_emit: "\<not> is_write e \<Longrightarrow> quiet w w' \<Longrightarrow> quiet w (emit e w')"
  by (auto simp: quiet_def events_since_def emit_def)

lemma quiet_trans: "quiet w w' \<Longrightarrow> quiet w' w'' \<Longrightarrow> quiet w w''"
proof -
  assume a: "quiet w w'" and b: "quiet w' w''"
  from a obtain e1 where e1: "trace w' = trace w @ e1" "\<not> list_ex is_write e1"
    unfolding quiet_def events_since_def by (metis append_take_drop_id)
  from b obtain e2 where e2: "trace w'' = trace w' @ e2" "\<not> list_ex is_write e2"
    unfolding quiet_def events_since_def by (metis append_take_drop_id)
  from a b e1 e2 show ?thesis
    by (simp add: quiet_def events_since_def)
qed

lemma resolve_cong: "fs w' = fs w \<Longrightarrow> cwd w' = cwd w \<Longrightarrow> resolve w' p = resolve w p"
  by (simp add: resolve_def)

lemma resolve_emit [simp]: "resolve (emit e w) p = resolve w p"
  by (simp add: resolve_def)

lemma file_matches_cong:
  assumes "fs w' = fs w" and "cwd w' = cwd w"
  shows "file_matches d h w' n = file_matches d h w n"
  unfolding file_matches_def os_path_isfile_def read_file_def resolve_def assms by simp

lemma file_matches_emit [simp]: "file_matches d h (emit e w) = file_matches d h w"
  by (rule ext) (rule file_matches_cong, simp_all)

lemma scan_spec:
  "fst (scan d h ns w) =
     (case find (file_matches d h w) ns of
        None \<Rightarrow> Inr (False, None)
      | Some n \<Rightarrow> Inr (True, Some n))
   \<and> quiet w (snd (scan d h ns w))"
proof (induction ns arbitrary: w)
  case Nil
  show ?case by simp
next
  case (Cons n ns)
  let ?p = "os_path_join d n"
  let ?w1 = "emit (Isfile ?p) w"
  let ?w2 = "emit (ReadFile ?p) ?w1"
  have q1: "quiet w ?w1" by (simp add: quiet_emit)
  have q2: "quiet w ?w2" by (simp add: quiet_emit)
  show ?case
  proof (cases "fst (os_path_isfile ?p w)")
    case False
    then have nm: "\<not> file_matches d h w n" by (simp add: file_matches_def)
    from False have eq: "scan d h (n # ns) w = scan d h ns ?w1"
      by (simp add: os_path_isfile_def Let_def)
    have "quiet w (snd (scan d h ns ?w1))"
      using quiet_trans [OF q1] Cons [of ?w1] by blast
    with Cons [of ?w1] nm show ?thesis
      unfolding eq by simp
  next
    case True
    then obtain q bs r wr where q: "resolve w ?p = Inr q" "map_of (fs w) q = Some (File bs r wr)"
      by (auto simp: os_path_isfile_def split: sum.splits option.splits node.splits)
    show ?thesis
    proof (cases "r \<and> hexdigest (md5 bs) = h")
      case True
      with q have "file_matches d h w n"
        by (simp add: file_matches_def os_path_isfile_def read_file_def)
      moreover from True q have "scan d h (n # ns) w = (Inr (True, Some n), ?w2)"
        by (simp add: os_path_isfile_def read_file_def Let_def)
      ultimately show ?thesis using q2 by simp
    next
      case False
      with q have nm: "\<not> file_matches d h w n"
        by (auto simp: file_matches_def os_path_isfile_def read_file_def)
      from False q have eq: "scan d h (n # ns) w = scan d h ns ?w2"
        by (auto simp: os_path_isfile_def read_file_def Let_def)
      have "quiet w (snd (scan d h ns ?w2))"
        using quiet_trans [OF q2] Cons [of ?w2] by blast
      with Cons [of ?w2] nm show ?thesis
        unfolding eq by simp
    qed
  qed
qed

lemma os_listdir_eq: "os_listdir directory w = (fst (os_listdir directory w), emit (Listdir directory) w)"
  by (simp add: os_listdir_def)

lemma is_duplicate_image_spec:
  "fst (is_duplicate_image directory contents w) =
     (case fst (os_listdir directory w) of
        Inl e \<Rightarrow> Inl e
      | Inr names \<Rightarrow>
          (case find (file_matches directory (hexdigest (md5 contents)) w) names of
             None \<Rightarrow> Inr (False, None)
           | Some n \<Rightarrow> Inr (True, Some n)))
   \<and> quiet w (snd (is_duplicate_image directory contents w))"
proof (cases "fst (os_listdir directory w)")
  case (Inl e)
  have "is_duplicate_image directory contents w = (Inl e, emit (Listdir directory) w)"
    unfolding is_duplicate_image_def Let_def
    by (subst os_listdir_eq) (simp add: Inl)
  with Inl show ?thesis
    by (simp add: quiet_emit)
next
  case (Inr names)
  let ?w1 = "emit (Listdir directory) w"
  have eq: "is_duplicate_image directory contents w
      = scan directory (hexdigest (md5 contents)) names ?w1"
    unfolding is_duplicate_image_def Let_def
    by (subst os_listdir_eq) (simp add: Inr)
  have q1: "quiet w ?w1" by (simp add: quiet_emit)
  have "quiet w (snd (scan directory (hexdigest (md5 contents)) names ?w1))"
    using quiet_trans [OF q1] scan_spec [of directory "hexdigest (md5 contents)" names ?w1]
    by blast
  then show ?thesis
    unfolding eq
    using Inr scan_spec [of directory "hexdigest (md5 contents)" names ?w1]
    by simp
qed

text \<open>
  Claim C10.  \<open>is_duplicate_image\<close> leaves every file as it was: the file system after
  the call is the one before it, and the call attempts no write (it lists the directory,
  tests entries and reads files).
\<close>

theorem duplicate_scan_read_only:
  "fs (snd (is_duplicate_image directory contents w)) = fs w
   \<and> \<not> list_ex is_write (events_since w (snd (is_duplicate_image directory contents w)))"
  using is_duplicate_image_spec [of directory contents w] by (simp add: quiet_def)

section \<open>The scheme check\<close>

text \<open>
  Claim C2.  A URL that starts with neither \<open>http://\<close> nor \<open>https://\<close> makes
  \<open>download_image\<close> return \<open>False\<close>; the only thing that happens is the message that asks
  for a valid URL, so the HTTP collaborator is not called and the file system is as
  before.
\<close>

theorem invalid_scheme_rejected:
  assumes "\<not> startswith url (py ''http://'')" and "\<not> startswith url (py ''https://'')"
  shows "fst (download_image netloc_ok get url directory w) = False
       \<and> events_since w (snd (download_image netloc_ok get url directory w))
           = [Print MsgInvalidURL]
       \<and> (\<forall>u. HttpGet u
              \<notin> set (events_since w (snd (download_image netloc_ok get url directory w))))
       \<and> fs (snd (download_image netloc_ok get url directory w)) = fs w"
  using assms by (simp add: download_image_def)

theorem invalid_scheme_rejected_witness:
  "\<not> startswith (py ''ftp://h/a.png'') (py ''http://'')
   \<and> \<not> startswith (py ''ftp://h/a.png'') (py ''https://'')
   \<and> fst (download_image (\<lambda>n. True) (\<lambda>u. Inl RequestException) (py ''ftp://h/a.png'')
            (py ''Fetched_Images'') \<lparr>fs = [], cwd = [], trace = []\<rparr>) = False"
  using invalid_scheme_rejected [of "py ''ftp://h/a.png''" "\<lambda>n. True"
      "\<lambda>u. Inl RequestException" "py ''Fetched_Images''" "\<lparr>fs = [], cwd = [], trace = []\<rparr>"]
  by (simp add: startswith_def py_def)

section \<open>The content type check\<close>

lemma try_download_not_image:
  assumes "get url = Inr r" and "\<not> startswith (content_type_of r) (py ''image/'')"
  shows "try_download netloc_ok get url directory w =
          (case raise_for_status r of
             Inl e \<Rightarrow> (Inl e, emit (HttpGet url) w)
           | Inr u \<Rightarrow>
               (Inr False,
                emit (Print (MsgNotImage (content_type_of r))) (emit (HttpGet url) w)))"
  using assms by (simp add: try_download_def requests_get_def split: sum.splits)

lemma try_download_http_error:
  assumes "get url = Inr r" and "400 \<le> status_code r" and "status_code r < 600"
  shows "try_download netloc_ok get url directory w =
           (Inl (HTTPError (status_code r)), emit (HttpGet url) w)"
  using assms by (simp add: try_download_def requests_get_def raise_for_status_def)

text \<open>
  Claim C3, as the code has it.  When the response's content type, cut at the first
  semicolon, does not start with \<open>image/\<close>, \<open>download_image\<close> returns \<open>False\<close>, the file
  system is unchanged and no write is attempted.  For a URL with an accepted scheme, the
  call consists of the connection message, the request and one more message: that the URL
  does not point to an image when the response passes the status check, and the HTTP
  error with its status code when the status is between 400 and 599, in which case the
  content type is not looked at.
\<close>

theorem non_image_rejected:
  assumes "get url = Inr r" and "\<not> startswith (content_type_of r) (py ''image/'')"
  shows "fst (download_image netloc_ok get url directory w) = False
       \<and> fs (snd (download_image netloc_ok get url directory w)) = fs w
       \<and> \<not> list_ex is_write
             (events_since w (snd (download_image netloc_ok get url directory w)))
       \<and> ((startswith url (py ''http://'') \<or> startswith url (py ''https://''))
            \<longrightarrow> raise_for_status r = Inr ()
            \<longrightarrow> events_since w (snd (download_image netloc_ok get url directory w)) =
                  [Print (MsgConnecting url), HttpGet url,
                   Print (MsgNotImage (content_type_of r))])
       \<and> ((startswith url (py ''http://'') \<or> startswith url (py ''https://''))
            \<longrightarrow> 400 \<le> status_code r \<and> status_code r < 600
            \<longrightarrow> events_since w (snd (download_image netloc_ok get url directory w)) =
                  [Print (MsgConnecting url), HttpGet url,
                   Print (MsgConnectionError (HTTPError (status_code r)))])"
  using assms
  by (cases "raise_for_status r")
     (auto simp: download_image_def try_download_not_image raise_for_status_def
           split: if_splits)

theorem non_image_rejected_witness:
  "(\<lambda>u. Inr (example_response 200 ''text/html; charset=utf-8'' [60])) (py ''http://h/a.png'')
     = Inr (example_response 200 ''text/html; charset=utf-8'' [60])
   \<and> \<not> startswith (content_type_of (example_response 200 ''text/html; charset=utf-8'' [60]))
         (py ''image/'')
   \<and> startswith (py ''http://h/a.png'') (py ''http://'')
   \<and> raise_for_status (example_response 200 ''text/html; charset=utf-8'' [60]) = Inr ()
   \<and> fst (download_image (\<lambda>n. True)
            (\<lambda>u. Inr (example_response 200 ''text/html; charset=utf-8'' [60]))
            (py ''http://h/a.png'') (py ''Fetched_Images'') example_world) = False
   \<and> events_since example_world
        (snd (download_image (\<lambda>n. True)
               (\<lambda>u. Inr (example_response 200 ''text/html; charset=utf-8'' [60]))
               (py ''http://h/a.png'') (py ''Fetched_Images'') example_world))
      = [Print (MsgConnecting (py ''http://h/a.png'')), HttpGet (py ''http://h/a.png''),
         Print (MsgNotImage (py ''text/html''))]"
proof -
  have ct: "content_type_of (example_response 200 ''text/html; charset=utf-8'' [60])
              = py ''text/html''"
    by (simp add: content_type_of_def example_response_def headers_get_def lower_def py_def)
  have ni: "\<not> startswith (py ''text/html'') (py ''image/'')"
    by (simp add: startswith_def py_def)
  have sc: "startswith (py ''http://h/a.png'') (py ''http://'')"
    by (simp add: startswith_def py_def)
  have st: "raise_for_status (example_response 200 ''text/html; charset=utf-8'' [60]) = Inr ()"
    by (simp add: raise_for_status_def example_response_def)
  show ?thesis
    using non_image_rejected [of "\<lambda>u. Inr (example_response 200 ''text/html; charset=utf-8'' [60])"
        "py ''http://h/a.png''" "example_response 200 ''text/html; charset=utf-8'' [60]"
        "\<lambda>n. True" "py ''Fetched_Images''" example_world] ct ni sc st
    by simp
qed

text \<open>
  Claim C3, as the specification has it, fails: a 404 response of type \<open>text/html\<close> is
  rejected by the status check, with the HTTP error as the reason and not the message
  that the URL does not point to an image.
\<close>

theorem non_image_http_error_counterexample:
  "\<not> startswith (content_type_of (example_response 404 ''text/html'' [60])) (py ''image/'')
   \<and> fst (download_image (\<lambda>n. True) (\<lambda>u. Inr (example_response 404 ''text/html'' [60]))
            (py ''http://h/a.png'') (py ''Fetched_Images'') example_world) = False
   \<and> events_since example_world
        (snd (download_image (\<lambda>n. True) (\<lambda>u. Inr (example_response 404 ''text/html'' [60]))
               (py ''http://h/a.png'') (py ''Fetched_Images'') example_world))
      = [Print (MsgConnecting (py ''http://h/a.png'')), HttpGet (py ''http://h/a.png''),
         Print (MsgConnectionError (HTTPError 404))]
   \<and> Print (MsgNotImage (content_type_of (example_response 404 ''text/html'' [60])))
       \<notin> set (events_since example_world
        (snd (download_image (\<lambda>n. True) (\<lambda>u. Inr (example_response 404 ''text/html'' [60]))
               (py ''http://h/a.png'') (py ''Fetched_Images'') example_world)))"
proof -
  have ct: "content_type_of (example_response 404 ''text/html'' [60]) = py ''text/html''"
    by (simp add: content_type_of_def example_response_def headers_get_def lower_def py_def)
  have ni: "\<not> startswith (py ''text/html'') (py ''image/'')"
    by (simp add: startswith_def py_def)
  have sc: "startswith (py ''http://h/a.png'') (py ''http://'')"
    by (simp add: startswith_def py_def)
  have st: "status_code (example_response 404 ''text/html'' [60]) = 404"
    by (simp add: example_response_def)
  have td: "try_download (\<lambda>n. True) (\<lambda>u. Inr (example_response 404 ''text/html'' [60]))
              (py ''http://h/a.png'') (py ''Fetched_Images'') w'
            = (Inl (HTTPError 404), emit (HttpGet (py ''http://h/a.png'')) w')" for w'
    using try_download_http_error
      [where get = "\<lambda>u. Inr (example_response 404 ''text/html'' [60])"
         and url = "py ''http://h/a.png''" and r = "example_response 404 ''text/html'' [60]"]
    by (simp add: st)
  show ?thesis
    using sc ni by (simp add: download_image_def td ct)
qed

lemma content_type_of_missing:
  "headers_get (headers r) (py ''Content-Type'') = None \<Longrightarrow> content_type_of r = []"
  by (simp add: content_type_of_def)

text \<open>
  Claim C9, as the code has it.  A response without a \<open>Content-Type\<close> header has the
  empty string as its content type; \<open>download_image\<close> returns \<open>False\<close>, leaves the file
  system alone and attempts no write.  For a URL with an accepted scheme, the call ends
  with the message that the URL does not point to an image when the response passes the
  status check, and with the HTTP error and its status code when the status is between
  400 and 599.
\<close>

theorem missing_content_type_rejected:
  assumes "get url = Inr r" and "headers_get (headers r) (py ''Content-Type'') = None"
  shows "content_type_of r = []
       \<and> fst (download_image netloc_ok get url directory w) = False
       \<and> fs (snd (download_image netloc_ok get url directory w)) = fs w
       \<and> \<not> list_ex is_write
             (events_since w (snd (download_image netloc_ok get url directory w)))
       \<and> ((startswith url (py ''http://'') \<or> startswith url (py ''https://''))
            \<longrightarrow> raise_for_status r = Inr ()
            \<longrightarrow> events_since w (snd (download_image netloc_ok get url directory w)) =
                  [Print (MsgConnecting url), HttpGet url, Print (MsgNotImage [])])
       \<and> ((startswith url (py ''http://'') \<or> startswith url (py ''https://''))
            \<longrightarrow> 400 \<le> status_code r \<and> status_code r < 600
            \<longrightarrow> events_since w (snd (download_image netloc_ok get url directory w)) =
                  [Print (MsgConnecting url), HttpGet url,
                   Print (MsgConnectionError (HTTPError (status_code r)))])"
proof -
  have ct: "content_type_of r = []"
    using assms(2) by (rule content_type_of_missing)
  then have ni: "\<not> startswith (content_type_of r) (py ''image/'')"
    by (simp add: startswith_def py_def)
  have td: "try_download netloc_ok get url directory w' =
          (case raise_for_status r of
             Inl e \<Rightarrow> (Inl e, emit (HttpGet url) w')
           | Inr u \<Rightarrow>
               (Inr False,
                emit (Print (MsgNotImage (content_type_of r))) (emit (HttpGet url) w')))" for w'
    using assms(1) ni by (rule try_download_not_image)
  show ?thesis
    using ct
    by (cases "raise_for_status r")
       (auto simp: download_image_def td raise_for_status_def split: if_splits)
qed

theorem missing_content_type_rejected_witness:
  "(\<lambda>u. Inr \<lparr>status_code = 200, headers = [(py ''Server'', py ''x'')], content = [60]\<rparr>)
      (py ''http://h/a.png'')
     = Inr \<lparr>status_code = 200, headers = [(py ''Server'', py ''x'')], content = [60]\<rparr>
   \<and> headers_get (headers \<lparr>status_code = 200, headers = [(py ''Server'', py ''x'')],
                             content = [60]\<rparr>) (py ''Content-Type'') = None
   \<and> startswith (py ''http://h/a.png'') (py ''http://'')
   \<and> raise_for_status \<lparr>status_code = 200, headers = [(py ''Server'', py ''x'')],
                         content = [60]\<rparr> = Inr ()
   \<and> fst (download_image (\<lambda>n. True)
            (\<lambda>u. Inr \<lparr>status_code = 200, headers = [(py ''Server'', py ''x'')],
                        content = [60]\<rparr>)
            (py ''http://h/a.png'') (py ''Fetched_Images'') example_world) = False
   \<and> events_since example_world
        (snd (download_image (\<lambda>n. True)
            (\<lambda>u. Inr \<lparr>status_code = 200, headers = [(py ''Server'', py ''x'')],
                        content = [60]\<rparr>)
            (py ''http://h/a.png'') (py ''Fetched_Images'') example_world))
      = [Print (MsgConnecting (py ''http://h/a.png'')), HttpGet (py ''http://h/a.png''),
         Print (MsgNotImage [])]"
proof -
  have sc: "startswith (py ''http://h/a.png'') (py ''http://'')"
    by (simp add: startswith_def py_def)
  have hd: "headers_get (headers \<lparr>status_code = 200, headers = [(py ''Server'', py ''x'')],
                             content = [60]\<rparr>) (py ''Content-Type'') = None"
    by (simp add: headers_get_def lower_def py_def)
  have st: "raise_for_status \<lparr>status_code = 200, headers = [(py ''Server'', py ''x'')],
                         content = [60]\<rparr> = Inr ()"
    by (simp add: raise_for_status_def)
  show ?thesis
    using missing_content_type_rejected
      [of "\<lambda>u. Inr \<lparr>status_code = 200, headers = [(py ''Server'', py ''x'')], content = [60]\<rparr>"
        "py ''http://h/a.png''"
        "\<lparr>status_code = 200, headers = [(py ''Server'', py ''x'')], content = [60]\<rparr>"
        "\<lambda>n. True" "py ''Fetched_Images''" example_world] sc hd st
    by simp
qed

text \<open>
  Claim C9, as the specification has it, fails: a 500 response without a \<open>Content-Type\<close>
  header is rejected by the status check, with the HTTP error as the reason; it is not
  rejected as not an image.
\<close>

theorem missing_content_type_http_error_counterexample:
  "headers_get (headers \<lparr>status_code = 500, headers = [(py ''Server'', py ''x'')],
                           content = [60]\<rparr>) (py ''Content-Type'') = None
   \<and> fst (download_image (\<lambda>n. True)
            (\<lambda>u. Inr \<lparr>status_code = 500, headers = [(py ''Server'', py ''x'')],
                        content = [60]\<rparr>)
            (py ''http://h/a.png'') (py ''Fetched_Images'') example_world) = False
   \<and> events_since example_world
        (snd (download_image (\<lambda>n. True)
            (\<lambda>u. Inr \<lparr>status_code = 500, headers = [(py ''Server'', py ''x'')],
                        content = [60]\<rparr>)
            (py ''http://h/a.png'') (py ''Fetched_Images'') example_world))
      = [Print (MsgConnecting (py ''http://h/a.png'')), HttpGet (py ''http://h/a.png''),
         Print (MsgConnectionError (HTTPError 500))]
   \<and> Print (MsgNotImage [])
       \<notin> set (events_since example_world
        (snd (download_image (\<lambda>n. True)
            (\<lambda>u. Inr \<lparr>status_code = 500, headers = [(py ''Server'', py ''x'')],
                        content = [60]\<rparr>)
            (py ''http://h/a.png'') (py ''Fetched_Images'') example_world)))"
proof -
  let ?r = "\<lparr>status_code = 500, headers = [(py ''Server'', py ''x'')], content = [60]\<rparr>"
  have hd: "headers_get (headers ?r) (py ''Content-Type'') = None"
    by (simp add: headers_get_def lower_def py_def)
  have sc: "startswith (py ''http://h/a.png'') (py ''http://'')"
    by (simp add: startswith_def py_def)
  have td: "try_download (\<lambda>n. True) (\<lambda>u. Inr ?r)
              (py ''http://h/a.png'') (py ''Fetched_Images'') w'
            = (Inl (HTTPError 500), emit (HttpGet (py ''http://h/a.png'')) w')" for w'
    using try_download_http_error
      [where get = "\<lambda>u. Inr ?r" and url = "py ''http://h/a.png''" and r = ?r]
    by simp
  show ?thesis
    using sc hd by (simp add: download_image_def td)
qed

section \<open>Names\<close>

lemma length_le_bytes [simp]: "length (le_bytes k w) = k"
  by (simp add: le_bytes_def)

lemma length_md5: "length (md5 m) = 16"
  by (simp add: md5_def split: prod.splits)

lemma length_hexdigest: "length (hexdigest bs) = 2 * length bs"
  by (induction bs) (simp_all add: hexdigest_def)

lemma is_hex_char_hexdigit: "d < 16 \<Longrightarrow> is_hex_char (hexdigit d)"
  by (auto simp: is_hex_char_def hexdigit_def)

lemma unat_byte_div16: "unat (b :: byte) div 16 < 16"
proof -
  have "unat b < 256" using unsigned_less [of b] by simp
  then show ?thesis by simp
qed

lemma hexdigest_hex: "list_all is_hex_char (hexdigest bs)"
  by (induction bs) (simp_all add: hexdigest_def is_hex_char_hexdigit unat_byte_div16)

lemma content_map_nonempty: "map_of content_map k = Some e \<Longrightarrow> e \<noteq> []"
  by (auto simp: content_map_def py_def split: if_splits)

lemma path_root: "urlparse_path (\<lambda>n. True) (py ''http://h/'') = Inr (py ''/'')"
  by (simp add: urlparse_path_def split_scheme_def splitnetloc_def
      netloc_rejected_def uses_params_def splitparams_def rfind_plus1_def
      is_ascii_alpha_def is_scheme_char_def is_netloc_delim_def lower_def py_def Let_def)

lemma base_root: "basename (unquote (py ''/'')) = []"
  by (simp add: unquote_def basename_def rfind_plus1_def py_def)

lemma enc_root: "encode (py ''http://h/'') = Inr [104, 116, 116, 112, 58, 47, 47, 104, 47]"
  by (simp add: py_def utf8_encode_cp_def)

text \<open>
  Claim C5, as the code has it.  When the last segment of the decoded path is empty, has
  no dot or has fewer than three characters, and the URL has a UTF-8 encoding, the name
  is \<open>ubuntu_image_\<close>, then the first eight characters of the hexadecimal MD5 digest of
  the encoded URL, then the extension of the content type, \<open>.jpg\<close> when there is none.
  The eight characters are lower-case hexadecimal digits.
\<close>

theorem fallback_name:
  assumes "urlparse_path netloc_ok url = Inr p"
      and "basename (unquote p) = [] \<or> ord CHR ''.'' \<notin> set (basename (unquote p))
           \<or> length (basename (unquote p)) < 3"
      and "encode url = Inr url_bytes"
  shows "extract_filename netloc_ok url content_type =
           Inr (py ''ubuntu_image_'' @ take 8 (hexdigest (md5 url_bytes))
                @ (case get_extension_from_content_type content_type of
                     None \<Rightarrow> py ''.jpg''
                   | Some ext \<Rightarrow> ext))
       \<and> length (take 8 (hexdigest (md5 url_bytes))) = 8
       \<and> list_all is_hex_char (take 8 (hexdigest (md5 url_bytes)))"
proof -
  have ext: "(case get_extension_from_content_type content_type of
                None \<Rightarrow> py ''.jpg''
              | Some ext \<Rightarrow> if ext = [] then py ''.jpg'' else ext)
           = (case get_extension_from_content_type content_type of
                None \<Rightarrow> py ''.jpg''
              | Some ext \<Rightarrow> ext)"
    by (auto simp: get_extension_from_content_type_def dest: content_map_nonempty
             split: option.splits if_splits)
  have hex: "list_all is_hex_char (take 8 (hexdigest (md5 url_bytes)))"
    using hexdigest_hex [of "md5 url_bytes"] by (auto simp: list_all_iff dest: in_set_takeD)
  have len: "length (take 8 (hexdigest (md5 url_bytes))) = 8"
    by (simp add: length_hexdigest length_md5)
  from assms have "extract_filename netloc_ok url content_type =
           Inr (py ''ubuntu_image_'' @ take 8 (hexdigest (md5 url_bytes))
                @ (case get_extension_from_content_type content_type of
                     None \<Rightarrow> py ''.jpg''
                   | Some ext \<Rightarrow> if ext = [] then py ''.jpg'' else ext))"
    by (auto simp: extract_filename_def Let_def)
  with ext hex len show ?thesis by simp
qed

theorem fallback_name_witness:
  "urlparse_path (\<lambda>n. True) (py ''http://h/'') = Inr (py ''/'')
   \<and> basename (unquote (py ''/'')) = []
   \<and> encode (py ''http://h/'') = Inr [104, 116, 116, 112, 58, 47, 47, 104, 47]
   \<and> extract_filename (\<lambda>n. True) (py ''http://h/'') (Some (py ''image/webp'')) =
       Inr (py ''ubuntu_image_''
            @ take 8 (hexdigest (md5 [104, 116, 116, 112, 58, 47, 47, 104, 47]))
            @ py ''.webp'')"
proof -
  have ext: "get_extension_from_content_type (Some (py ''image/webp'')) = Some (py ''.webp'')"
    by (simp add: get_extension_from_content_type_def content_map_def lower_def py_def)
  show ?thesis
    using fallback_name [OF path_root _ enc_root, of "Some (py ''image/webp'')"] path_root
      base_root enc_root ext
    by simp
qed

text \<open>
  Claim C5, as the specification has it, fails: for \<open>http://h/\<close> the last segment is
  empty and the name starts with \<open>ubuntu_image_\<close>, not with \<open>image_\<close>.
\<close>

theorem fallback_name_prefix_counterexample:
  "urlparse_path (\<lambda>n. True) (py ''http://h/'') = Inr (py ''/'')
   \<and> basename (unquote (py ''/'')) = []
   \<and> extract_filename (\<lambda>n. True) (py ''http://h/'') None =
       Inr (py ''ubuntu_image_''
            @ take 8 (hexdigest (md5 [104, 116, 116, 112, 58, 47, 47, 104, 47]))
            @ py ''.jpg'')
   \<and> \<not> startswith
         (py ''ubuntu_image_''
            @ take 8 (hexdigest (md5 [104, 116, 116, 112, 58, 47, 47, 104, 47]))
            @ py ''.jpg'')
         (py ''image_'')"
proof -
  have "extract_filename (\<lambda>n. True) (py ''http://h/'') None =
       Inr (py ''ubuntu_image_''
            @ take 8 (hexdigest (md5 [104, 116, 116, 112, 58, 47, 47, 104, 47]))
            @ py ''.jpg'')"
    by (simp add: extract_filename_def path_root base_root enc_root
        get_extension_from_content_type_def)
  moreover have "\<not> startswith (py ''ubuntu_image_'' @ x) (py ''image_'')" for x
    by (simp add: startswith_def py_def)
  ultimately show ?thesis
    using path_root base_root by simp
qed

lemma path_evil:
  "urlparse_path (\<lambda>n. True) (py ''http://example.com/%252E%252E%252Fevil.png'')
     = Inr (py ''/%252E%252E%252Fevil.png'')"
  by (simp add: urlparse_path_def split_scheme_def splitnetloc_def
      netloc_rejected_def uses_params_def splitparams_def rfind_plus1_def
      is_ascii_alpha_def is_scheme_char_def is_netloc_delim_def lower_def py_def Let_def)

lemma unquote_evil1: "unquote (py ''/%252E%252E%252Fevil.png'') = py ''/%2E%2E%2Fevil.png''"
  by (simp add: unquote_def py_def hexval_def utf8_step_def)

lemma unquote_evil2: "unquote (py ''%2E%2E%2Fevil.png'') = py ''../evil.png''"
  by (simp add: unquote_def py_def hexval_def utf8_step_def)

lemma base_evil: "basename (py ''/%2E%2E%2Fevil.png'') = py ''%2E%2E%2Fevil.png''"
  by (simp add: basename_def rfind_plus1_def py_def)

lemma name_evil:
  "extract_filename (\<lambda>n. True) (py ''http://example.com/%252E%252E%252Fevil.png'')
      (Some (py ''image/png'')) = Inr (py ''../evil.png'')"
proof -
  have f1: "py ''%2E%2E%2Fevil.png'' \<noteq> []"
    and f2: "ord CHR ''.'' \<in> set (py ''%2E%2E%2Fevil.png'')"
    and f3: "\<not> length (py ''%2E%2E%2Fevil.png'') < 3"
    and f4: "ord CHR ''%'' \<in> set (py ''%2E%2E%2Fevil.png'')"
    by (simp_all add: py_def)
  show ?thesis
    using f1 f2 f3 f4
    by (simp add: extract_filename_def path_evil unquote_evil1 base_evil unquote_evil2
        Let_def)
qed

text \<open>
  Claim C6 at a failing input.  The last segment \<open>%2E%2E%2Fevil.png\<close> of the decoded
  path is accepted and, since it contains a percent sign, decoded once more: the result
  \<open>../evil.png\<close> contains a path separator and is not the name of an entry of the target
  directory.
\<close>

theorem double_decoding_escapes_directory:
  "extract_filename (\<lambda>n. True) (py ''http://example.com/%252E%252E%252Fevil.png'')
      (Some (py ''image/png'')) = Inr (py ''../evil.png'')
   \<and> ord CHR ''/'' \<in> set (py ''../evil.png'')
   \<and> \<not> valid_name (py ''../evil.png'')"
  using name_evil by (simp add: valid_name_def py_def)

theorem double_decoding_escapes_directory_witness:
  "extract_filename (\<lambda>n. True) (py ''http://example.com/%252E%252E%252Fevil.png'')
      (Some (py ''image/png'')) = Inr (py ''../evil.png'')"
  by (rule conjunct1 [OF double_decoding_escapes_directory])

text \<open>
  What the name does satisfy: it is never empty, and a name that is returned without the
  second decoding is the last segment of the decoded path and has no path separator.
\<close>

lemma unquote_to_bytes_not_Nil: "s \<noteq> [] \<Longrightarrow> unquote_to_bytes s \<noteq> []"
  by (induction s rule: unquote_to_bytes.induct)
     (auto split: prod.splits bool.splits option.splits)

lemma utf8_decode_not_Nil: "bs \<noteq> [] \<Longrightarrow> utf8_decode bs \<noteq> []"
  by (cases bs) simp_all

lemma unquote_not_Nil: "s \<noteq> [] \<Longrightarrow> unquote s \<noteq> []"
proof (cases s)
  case Nil
  then show "s \<noteq> [] \<Longrightarrow> unquote s \<noteq> []" by simp
next
  case (Cons c cs)
  have "unquote_to_bytes (c # takeWhile (\<lambda>x. x < 128) cs) \<noteq> []"
    by (rule unquote_to_bytes_not_Nil) simp
  then have "utf8_decode (unquote_to_bytes (c # takeWhile (\<lambda>x. x < 128) cs)) \<noteq> []"
    by (rule utf8_decode_not_Nil)
  with Cons show "unquote s \<noteq> []"
    by (auto simp: unquote_def)
qed

lemma basename_no_separator: "ord CHR ''/'' \<notin> set (basename p)"
proof -
  have "x \<notin> set (drop (length s - length (takeWhile (\<lambda>y. y \<noteq> x) (rev s))) s)" for x :: nat and s
  proof -
    have "drop (length s - length (takeWhile (\<lambda>y. y \<noteq> x) (rev s))) s
            = rev (takeWhile (\<lambda>y. y \<noteq> x) (rev s))"
      by (metis length_rev rev_drop rev_rev_ident takeWhile_eq_take take_rev)
    then show ?thesis
      by (auto dest: set_takeWhileD)
  qed
  then show ?thesis
    by (simp add: basename_def rfind_plus1_def)
qed

lemma extract_filename_not_Nil:
  "extract_filename netloc_ok url content_type = Inr name \<Longrightarrow> name \<noteq> []"
  by (auto simp: extract_filename_def Let_def py_def unquote_not_Nil
           split: sum.splits if_splits)

lemma extract_filename_single_decoding:
  assumes "extract_filename netloc_ok url content_type = Inr name"
      and "urlparse_path netloc_ok url = Inr p"
      and "ord CHR ''%'' \<notin> set (basename (unquote p))"
      and "basename (unquote p) \<noteq> []" and "ord CHR ''.'' \<in> set (basename (unquote p))"
      and "3 \<le> length (basename (unquote p))"
  shows "name = basename (unquote p) \<and> ord CHR ''/'' \<notin> set name"
  using assms basename_no_separator [of "unquote p"]
  by (auto simp: extract_filename_def Let_def split: sum.splits if_splits)

section \<open>The pipeline on an image response\<close>

lemma quietD:
  assumes "quiet w w'"
  shows "fs w' = fs w" and "cwd w' = cwd w"
    and "\<exists>evs. trace w' = trace w @ evs \<and> \<not> list_ex is_write evs"
proof -
  from assms show "fs w' = fs w" and "cwd w' = cwd w" by (simp_all add: quiet_def)
  from assms have "trace w' = trace w @ events_since w w'"
    unfolding quiet_def events_since_def by (metis append_take_drop_id)
  moreover from assms have "\<not> list_ex is_write (events_since w w')" by (simp add: quiet_def)
  ultimately show "\<exists>evs. trace w' = trace w @ evs \<and> \<not> list_ex is_write evs" by blast
qed

lemma events_since_append: "trace w' = trace w @ evs \<Longrightarrow> events_since w w' = evs"
  by (simp add: events_since_def)

lemma report_headers_quiet: "quiet w (report_headers r hs w)"
proof (induction hs arbitrary: w)
  case Nil
  show ?case by simp
next
  case (Cons h hs)
  show ?case
  proof (cases "headers_get (headers r) h")
    case None
    with Cons show ?thesis by simp
  next
    case (Some v)
    have q: "quiet w (emit (Print (MsgHeaderPresent h v)) w)"
      by (simp add: quiet_emit)
    from Some Cons [of w] quiet_trans [OF q Cons [of "emit (Print (MsgHeaderPresent h v)) w"]]
    show ?thesis by simp
  qed
qed

lemma before_scan_quiet:
  "quiet w (report_headers r security_headers
              (emit (Print MsgSecurityHeaders) (emit (HttpGet url)
                (emit (Print (MsgConnecting url)) w))))"
proof -
  have "quiet w (emit (Print MsgSecurityHeaders) (emit (HttpGet url)
                (emit (Print (MsgConnecting url)) w)))"
    by (simp add: quiet_emit)
  then show ?thesis
    using quiet_trans report_headers_quiet by blast
qed

lemma try_download_image:
  assumes "get url = Inr r" and "raise_for_status r = Inr ()"
      and "startswith (content_type_of r) (py ''image/'')"
      and "extract_filename netloc_ok url (Some (content_type_of r)) = Inr fname"
  shows "try_download netloc_ok get url directory w =
     (case is_duplicate_image directory (content r)
             (report_headers r security_headers
                (emit (Print MsgSecurityHeaders) (emit (HttpGet url) w))) of
        (Inl e, w3) \<Rightarrow> (Inl e, w3)
      | (Inr (is_duplicate, existing_file), w3) \<Rightarrow>
          if is_duplicate then (Inr True, emit (Print (MsgAlreadyExists existing_file)) w3)
          else
            (case write_file (os_path_join directory fname) (content r) w3 of
               (Inl e, w4) \<Rightarrow> (Inl e, w4)
             | (Inr u, w4) \<Rightarrow>
                 (case os_path_getsize (os_path_join directory fname) w4 of
                    (Inl e, w5) \<Rightarrow> (Inl e, w5)
                  | (Inr file_size, w5) \<Rightarrow>
                      (Inr True,
                       emit (Print (MsgSavedTo directory))
                         (emit (Print (MsgFetched fname file_size)) w5)))))"
  using assms by (simp add: try_download_def requests_get_def Let_def)

lemma scan_start_quiet: "quiet w (scan_start r url w)"
  unfolding scan_start_def by (rule before_scan_quiet)



lemma download_image_image:
  assumes sch: "startswith url (py ''http://'') \<or> startswith url (py ''https://'')"
      and g: "get url = Inr r" and st: "raise_for_status r = Inr ()"
      and ct: "startswith (content_type_of r) (py ''image/'')"
      and fn: "extract_filename netloc_ok url (Some (content_type_of r)) = Inr fname"
  shows "download_image netloc_ok get url directory w =
     (case is_duplicate_image directory (content r) (scan_start r url w) of
        (Inl e, w3) \<Rightarrow> (False, emit (Print (handler e)) w3)
      | (Inr (is_duplicate, existing_file), w3) \<Rightarrow>
          if is_duplicate then (True, emit (Print (MsgAlreadyExists existing_file)) w3)
          else
            (case write_file (os_path_join directory fname) (content r) w3 of
               (Inl e, w4) \<Rightarrow> (False, emit (Print (handler e)) w4)
             | (Inr u, w4) \<Rightarrow>
                 (case os_path_getsize (os_path_join directory fname) w4 of
                    (Inl e, w5) \<Rightarrow> (False, emit (Print (handler e)) w5)
                  | (Inr file_size, w5) \<Rightarrow>
                      (True,
                       emit (Print (MsgSavedTo directory))
                         (emit (Print (MsgFetched fname file_size)) w5)))))"
  using sch
  by (simp add: download_image_def try_download_image [where get = get and url = url, OF g st ct fn] scan_start_def
           split: prod.splits sum.splits)



lemma os_listdir_cong:
  assumes "fs w' = fs w" and "cwd w' = cwd w"
  shows "fst (os_listdir p w') = fst (os_listdir p w)"
  unfolding os_listdir_def resolve_def assms by simp

lemma is_duplicate_image_cong:
  assumes "fs w' = fs w" and "cwd w' = cwd w"
  shows "fst (is_duplicate_image directory contents w')
       = fst (is_duplicate_image directory contents w)"
proof -
  have "file_matches directory (hexdigest (md5 contents)) w'
      = file_matches directory (hexdigest (md5 contents)) w"
    by (rule ext) (rule file_matches_cong [OF assms])
  then show ?thesis
    by (simp only: conjunct1 [OF is_duplicate_image_spec] os_listdir_cong [OF assms])
qed



lemma isdir_update_file:
  "\<not> isdir f q \<Longrightarrow> isdir (AList.update q (File bs rd wr) f) p = isdir f p"
  by (auto simp: isdir_def update_conv')

lemma resolve_update_file:
  assumes "fs w' = AList.update q (File bs rd wr) (fs w)" and "\<not> isdir (fs w) q"
      and "cwd w' = cwd w"
  shows "resolve w' p = resolve w p"
proof -
  have "walk (fs w') c xs = walk (fs w) c xs" for c xs
    by (rule walk_cong_isdir) (simp add: assms(1) isdir_update_file [OF assms(2)])
  then show ?thesis
    by (simp add: resolve_def assms(3))
qed





lemma os_listdir_resolved:
  "resolve w directory = Inr d \<Longrightarrow> isdir (fs w) d \<Longrightarrow>
     fst (os_listdir directory w) = Inr (listing (fs w) d)"
  by (simp add: os_listdir_def)

lemma file_matches_resolved:
  assumes "resolve w directory = Inr d" and "isdir (fs w) d" and "valid_name n"
  shows "file_matches directory h w n =
           (case map_of (fs w) (d @ [n]) of
              Some (File bs rd wr) \<Rightarrow> rd \<and> hexdigest (md5 bs) = h
            | _ \<Rightarrow> False)"
  using resolve_join [OF assms]
  by (auto simp: file_matches_def os_path_isfile_def read_file_def
           split: option.splits node.splits)



lemma download_saves:
  assumes sch: "startswith url (py ''http://'') \<or> startswith url (py ''https://'')"
      and g: "get url = Inr r" and st: "raise_for_status r = Inr ()"
      and ct: "startswith (content_type_of r) (py ''image/'')"
      and fn: "extract_filename netloc_ok url (Some (content_type_of r)) = Inr fname"
      and nd: "fst (is_duplicate_image directory (content r) w) = Inr (False, ex)"
      and rq: "resolve w (os_path_join directory fname) = Inr q"
      and nq: "\<not> isdir (fs w) q"
      and tgt: "(map_of (fs w) q = None \<and> rd) \<or> (\<exists>bs. map_of (fs w) q = Some (File bs rd True))"
  shows "fst (download_image netloc_ok get url directory w)
       \<and> fs (snd (download_image netloc_ok get url directory w))
           = AList.update q (File (content r) rd True) (fs w)
       \<and> cwd (snd (download_image netloc_ok get url directory w)) = cwd w
       \<and> list_ex is_write
           (events_since w (snd (download_image netloc_ok get url directory w)))"
proof -
  let ?p = "os_path_join directory fname"
  let ?w2 = "scan_start r url w"
  have q2: "quiet w ?w2" by (rule scan_start_quiet)
  obtain x w3 where eq: "is_duplicate_image directory (content r) ?w2 = (x, w3)"
    by (cases "is_duplicate_image directory (content r) ?w2")
  have q3: "quiet ?w2 w3"
    using is_duplicate_image_spec [of directory "content r" ?w2] eq by simp
  have q23: "quiet w w3" using quiet_trans [OF q2 q3] .
  have x: "x = Inr (False, ex)"
    using is_duplicate_image_cong [of ?w2 w directory "content r"] quietD(1,2) [OF q2] eq nd
    by simp
  have fw: "fs w3 = fs w" "cwd w3 = cwd w" using quietD(1,2) [OF q23] by simp_all
  from quietD(3) [OF q23] obtain evs where evs: "trace w3 = trace w @ evs" by blast
  have r3: "resolve w3 ?p = Inr q" using rq resolve_cong [OF fw] by simp
  define w4 where "w4 = (emit (WriteFile ?p (content r)) w3)
                          \<lparr>fs := AList.update q (File (content r) rd True) (fs w)\<rparr>"
  have wf4: "write_file ?p (content r) w3 = (Inr (), w4)"
    using tgt nq r3 by (auto simp: write_file_def Let_def fw w4_def)
  have f4: "fs w4 = AList.update q (File (content r) rd True) (fs w)" and c4: "cwd w4 = cwd w"
    by (simp_all add: w4_def emit_def fw)
  have r4: "resolve w4 ?p = Inr q"
    using resolve_update_file [OF f4 nq c4] rq by simp
  have gs: "os_path_getsize ?p w4 = (Inr (length (content r)), emit (Getsize ?p) w4)"
    using r4 by (simp add: os_path_getsize_def f4 update_conv')
  have di: "download_image netloc_ok get url directory w =
              (True, emit (Print (MsgSavedTo directory))
                       (emit (Print (MsgFetched fname (length (content r))))
                          (emit (Getsize ?p) w4)))"
    unfolding download_image_image [where get = get and url = url, OF sch g st ct fn] eq x
    by (simp add: wf4 gs)
  have tr: "trace (snd (download_image netloc_ok get url directory w)) =
              trace w @ (evs @ [WriteFile ?p (content r), Getsize ?p,
                                Print (MsgFetched fname (length (content r))),
                                Print (MsgSavedTo directory)])"
    by (simp add: di emit_def w4_def evs)
  have "list_ex is_write (events_since w (snd (download_image netloc_ok get url directory w)))"
    unfolding events_since_append [OF tr] by simp
  then show ?thesis
    by (simp add: di f4 c4)
qed


section \<open>The example worlds\<close>

lemma valid_cat: "valid_name (py ''cat.png'')"
  by (simp add: valid_name_def py_def)

lemma resolve_Fetched_Images:
  "cwd w = [] \<Longrightarrow> resolve w (py ''Fetched_Images'') = Inr [py ''Fetched_Images'']"
  by (simp add: resolve_def isdir_def py_def)

lemma scheme_example: "startswith example_url (py ''http://'')"
  by (simp add: example_url_def startswith_def py_def)

lemma content_type_example:
  "content_type_of (example_response st ''image/png'' body) = py ''image/png''"
  by (simp add: content_type_of_def example_response_def headers_get_def lower_def py_def)

lemma image_example: "startswith (py ''image/png'') (py ''image/'')"
  by (simp add: startswith_def py_def)

lemma name_example:
  "extract_filename (\<lambda>n. True) example_url (Some (py ''image/png'')) = Inr (py ''cat.png'')"
  by (simp add: example_url_def extract_filename_def urlparse_path_def split_scheme_def
      splitnetloc_def netloc_rejected_def uses_params_def splitparams_def rfind_plus1_def
      unquote_def basename_def is_ascii_alpha_def is_scheme_char_def is_netloc_delim_def
      lower_def py_def Let_def)

lemma not_found_empty:
  "fst (is_duplicate_image (py ''Fetched_Images'') body example_world) = Inr (False, None)"
proof -
  have d: "isdir (fs example_world) [py ''Fetched_Images'']"
    by (simp add: isdir_def example_world_def)
  have c: "cwd example_world = []" by (simp add: example_world_def)
  have l: "listing (fs example_world) [py ''Fetched_Images''] = []"
    by (simp add: listing_def example_world_def)
  show ?thesis
    using conjunct1 [OF is_duplicate_image_spec [of "py ''Fetched_Images''" body example_world]]
      os_listdir_resolved [OF resolve_Fetched_Images [OF c] d]
    by (simp add: l)
qed

lemma first_save_example:
  assumes "raise_for_status (example_response st ''image/png'' body) = Inr ()"
  shows "fst (download_image (\<lambda>n. True) (example_get st body) example_url
                (py ''Fetched_Images'') example_world)
       \<and> fs (snd (download_image (\<lambda>n. True) (example_get st body) example_url
                (py ''Fetched_Images'') example_world))
           = [([py ''Fetched_Images''], Dir),
              ([py ''Fetched_Images'', py ''cat.png''], File body True True)]
       \<and> cwd (snd (download_image (\<lambda>n. True) (example_get st body) example_url
                (py ''Fetched_Images'') example_world)) = []
       \<and> list_ex is_write
           (events_since example_world
              (snd (download_image (\<lambda>n. True) (example_get st body) example_url
                (py ''Fetched_Images'') example_world)))"
proof -
  let ?r = "example_response st ''image/png'' body"
  have d: "isdir (fs example_world) [py ''Fetched_Images'']"
    by (simp add: isdir_def example_world_def)
  have c: "cwd example_world = []" by (simp add: example_world_def)
  have g: "example_get st body example_url = Inr ?r" by (simp add: example_get_def)
  have ct: "startswith (content_type_of ?r) (py ''image/'')"
    by (simp add: content_type_example image_example)
  have fn: "extract_filename (\<lambda>n. True) example_url (Some (content_type_of ?r))
              = Inr (py ''cat.png'')"
    by (simp add: content_type_example name_example)
  have body: "content ?r = body" by (simp add: example_response_def)
  have nd: "fst (is_duplicate_image (py ''Fetched_Images'') (content ?r) example_world)
              = Inr (False, None)"
    by (simp add: body not_found_empty)
  have rq: "resolve example_world (os_path_join (py ''Fetched_Images'') (py ''cat.png''))
              = Inr ([py ''Fetched_Images''] @ [py ''cat.png''])"
    by (rule resolve_join [OF resolve_Fetched_Images [OF c] d valid_cat])
  have nq: "\<not> isdir (fs example_world) ([py ''Fetched_Images''] @ [py ''cat.png''])"
    by (simp add: isdir_def example_world_def)
  have tgt: "(map_of (fs example_world) ([py ''Fetched_Images''] @ [py ''cat.png'']) = None
               \<and> True)
           \<or> (\<exists>bs. map_of (fs example_world) ([py ''Fetched_Images''] @ [py ''cat.png''])
                     = Some (File bs True True))"
    by (simp add: example_world_def)
  show ?thesis
    using download_saves [where get = "example_get st body" and url = example_url,
        OF disjI1 [OF scheme_example] g assms ct fn nd rq nq tgt]
    by (simp add: body example_world_def)
qed



text \<open>
  What the name \<open>../evil.png\<close> of claim C6 leads to: \<open>download_image\<close> succeeds and the
  file is created next to the target directory, not in it.
\<close>

lemma double_decoding_written_outside:
  "fst (download_image (\<lambda>n. True) (example_get 200 [1, 2, 3])
          (py ''http://example.com/%252E%252E%252Fevil.png'') (py ''Fetched_Images'')
          example_world)
   \<and> fs (snd (download_image (\<lambda>n. True) (example_get 200 [1, 2, 3])
          (py ''http://example.com/%252E%252E%252Fevil.png'') (py ''Fetched_Images'')
          example_world))
       = [([py ''Fetched_Images''], Dir), ([py ''evil.png''], File [1, 2, 3] True True)]"
proof -
  let ?r = "example_response 200 ''image/png'' [1, 2, 3]"
  let ?u = "py ''http://example.com/%252E%252E%252Fevil.png''"
  have sch: "startswith ?u (py ''http://'')" by (simp add: startswith_def py_def)
  have g: "example_get 200 [1, 2, 3] ?u = Inr ?r" by (simp add: example_get_def)
  have st: "raise_for_status ?r = Inr ()"
    by (simp add: raise_for_status_def example_response_def)
  have ct: "startswith (content_type_of ?r) (py ''image/'')"
    by (simp add: content_type_example image_example)
  have fn: "extract_filename (\<lambda>n. True) ?u (Some (content_type_of ?r))
                   = Inr (py ''../evil.png'')"
    by (simp add: content_type_example name_evil)
  have body: "content ?r = [1, 2, 3]" by (simp add: example_response_def)
  have nd: "fst (is_duplicate_image (py ''Fetched_Images'') (content ?r) example_world)
              = Inr (False, None)"
    by (simp add: body not_found_empty)
  have rq: "resolve example_world (os_path_join (py ''Fetched_Images'') (py ''../evil.png''))
              = Inr [py ''evil.png'']"
    by (simp add: resolve_def os_path_join_def startswith_def example_world_def isdir_def
        py_def)
  have ne: "py ''Fetched_Images'' \<noteq> py ''evil.png''" by (simp add: py_def)
  have nq: "\<not> isdir (fs example_world) [py ''evil.png'']"
    using ne by (simp add: isdir_def example_world_def)
  have tgt: "(map_of (fs example_world) [py ''evil.png''] = None \<and> True)
           \<or> (\<exists>bs. map_of (fs example_world) [py ''evil.png''] = Some (File bs True True))"
    using ne by (simp add: example_world_def)
  show ?thesis
    using download_saves [where get = "example_get 200 [1, 2, 3]" and url = ?u,
        OF disjI1 [OF sch] g st ct fn nd rq nq tgt] ne
    by (simp add: body example_world_def)
qed

section \<open>The status check\<close>

text \<open>
  Claim C4, as the code has it.  \<open>raise_for_status\<close> raises for the status codes from 400
  to 599: for these \<open>download_image\<close> returns \<open>False\<close>, the file system is unchanged and
  no write is attempted; for a URL with an accepted scheme the call consists of the
  connection message, the request and the error message that carries the HTTP error with
  its status code.  A 404 response is one of them.
\<close>

theorem http_error_status_rejected:
  assumes "get url = Inr r" and "400 \<le> status_code r" and "status_code r < 600"
  shows "fst (download_image netloc_ok get url directory w) = False
       \<and> fs (snd (download_image netloc_ok get url directory w)) = fs w
       \<and> \<not> list_ex is_write
             (events_since w (snd (download_image netloc_ok get url directory w)))
       \<and> ((startswith url (py ''http://'') \<or> startswith url (py ''https://''))
            \<longrightarrow> events_since w (snd (download_image netloc_ok get url directory w)) =
                  [Print (MsgConnecting url), HttpGet url,
                   Print (MsgConnectionError (HTTPError (status_code r)))])"
  using assms by (auto simp: download_image_def try_download_http_error)

theorem http_error_status_rejected_witness:
  "(\<lambda>u. Inr (example_response 404 ''text/html'' [60])) (py ''http://h/a.png'')
     = Inr (example_response 404 ''text/html'' [60])
   \<and> 400 \<le> status_code (example_response 404 ''text/html'' [60])
   \<and> status_code (example_response 404 ''text/html'' [60]) < 600
   \<and> startswith (py ''http://h/a.png'') (py ''http://'')
   \<and> fst (download_image (\<lambda>n. True) (\<lambda>u. Inr (example_response 404 ''text/html'' [60]))
            (py ''http://h/a.png'') (py ''Fetched_Images'') example_world) = False
   \<and> fs (snd (download_image (\<lambda>n. True) (\<lambda>u. Inr (example_response 404 ''text/html'' [60]))
            (py ''http://h/a.png'') (py ''Fetched_Images'') example_world)) = fs example_world
   \<and> events_since example_world
        (snd (download_image (\<lambda>n. True) (\<lambda>u. Inr (example_response 404 ''text/html'' [60]))
               (py ''http://h/a.png'') (py ''Fetched_Images'') example_world))
      = [Print (MsgConnecting (py ''http://h/a.png'')), HttpGet (py ''http://h/a.png''),
         Print (MsgConnectionError (HTTPError 404))]"
proof -
  have sc: "startswith (py ''http://h/a.png'') (py ''http://'')"
    by (simp add: startswith_def py_def)
  have st: "status_code (example_response 404 ''text/html'' [60]) = 404"
    by (simp add: example_response_def)
  show ?thesis
    using http_error_status_rejected [of "\<lambda>u. Inr (example_response 404 ''text/html'' [60])"
        "py ''http://h/a.png''" "example_response 404 ''text/html'' [60]"
        "\<lambda>n. True" "py ''Fetched_Images''" example_world] sc st
    by simp
qed

text \<open>
  Claim C4, as the specification has it, fails: the status 300 is outside the 2xx range,
  yet an image response with this status passes \<open>raise_for_status\<close> and is saved.
\<close>

theorem status_300_saved_counterexample:
  "status_code (example_response 300 ''image/png'' [1, 2, 3]) = 300
   \<and> \<not> (200 \<le> status_code (example_response 300 ''image/png'' [1, 2, 3])
        \<and> status_code (example_response 300 ''image/png'' [1, 2, 3]) < 300)
   \<and> example_get 300 [1, 2, 3] example_url = Inr (example_response 300 ''image/png'' [1, 2, 3])
   \<and> fst (download_image (\<lambda>n. True) (example_get 300 [1, 2, 3]) example_url
            (py ''Fetched_Images'') example_world)
   \<and> fs (snd (download_image (\<lambda>n. True) (example_get 300 [1, 2, 3]) example_url
            (py ''Fetched_Images'') example_world))
       = [([py ''Fetched_Images''], Dir),
          ([py ''Fetched_Images'', py ''cat.png''], File [1, 2, 3] True True)]
   \<and> list_ex is_write
         (events_since example_world
            (snd (download_image (\<lambda>n. True) (example_get 300 [1, 2, 3]) example_url
                    (py ''Fetched_Images'') example_world)))"
proof -
  have "raise_for_status (example_response 300 ''image/png'' [1, 2, 3]) = Inr ()"
    by (simp add: raise_for_status_def example_response_def)
  from first_save_example [OF this] show ?thesis
    by (simp add: example_response_def example_get_def)
qed

section \<open>Read errors during the scan\<close>

lemma find_skip: "\<not> P u \<Longrightarrow> find P (xs @ u # ys) = find P (xs @ ys)"
  by (induction xs) auto

text \<open>
  Claim C8.  Let \<open>u\<close> be an entry of the directory listing that is a regular file and
  cannot be read.  The scan gives what the scan of the listing without \<open>u\<close> gives, so it
  goes on after \<open>u\<close> and counts \<open>u\<close> as no match; and when another entry matches, a
  matching entry is returned as the duplicate.
\<close>

theorem read_error_does_not_abort_scan:
  assumes ls: "fst (os_listdir directory w) = Inr (before @ u # after)"
      and isf: "fst (os_path_isfile (os_path_join directory u) w)"
      and err: "fst (read_file (os_path_join directory u) w) = Inl e"
  shows "fst (is_duplicate_image directory contents w)
           = fst (scan directory (hexdigest (md5 contents)) (before @ after) w)
       \<and> (\<forall>m \<in> set (before @ after).
             file_matches directory (hexdigest (md5 contents)) w m \<longrightarrow>
             (\<exists>n. fst (is_duplicate_image directory contents w) = Inr (True, Some n)
                  \<and> file_matches directory (hexdigest (md5 contents)) w n))"
proof -
  let ?P = "file_matches directory (hexdigest (md5 contents)) w"
  from err have nu: "\<not> ?P u" by (simp add: file_matches_def)
  have r: "fst (is_duplicate_image directory contents w) =
             (case find ?P (before @ after) of
                None \<Rightarrow> Inr (False, None)
              | Some n \<Rightarrow> Inr (True, Some n))"
    using conjunct1 [OF is_duplicate_image_spec [of directory contents w]] ls
    by (simp add: find_skip [where P = ?P and u = u, OF nu])
  have s: "fst (scan directory (hexdigest (md5 contents)) (before @ after) w) =
             (case find ?P (before @ after) of
                None \<Rightarrow> Inr (False, None)
              | Some n \<Rightarrow> Inr (True, Some n))"
    using scan_spec by blast
  have "\<exists>n. fst (is_duplicate_image directory contents w) = Inr (True, Some n) \<and> ?P n"
    if m: "m \<in> set (before @ after)" and pm: "?P m" for m
  proof (cases "find ?P (before @ after)")
    case None
    with m pm show ?thesis by (auto simp: find_None_iff)
  next
    case (Some n)
    then have "?P n" by (auto simp: find_Some_iff)
    with Some r show ?thesis by simp
  qed
  with r s show ?thesis by auto
qed

theorem read_error_does_not_abort_scan_witness:
  "fst (os_listdir (py ''Fetched_Images'') scan_world) = Inr ([] @ py ''a.png'' # [py ''b.png''])
   \<and> fst (os_path_isfile (os_path_join (py ''Fetched_Images'') (py ''a.png'')) scan_world)
   \<and> fst (read_file (os_path_join (py ''Fetched_Images'') (py ''a.png'')) scan_world)
       = Inl OSError
   \<and> py ''b.png'' \<in> set ([] @ [py ''b.png''])
   \<and> file_matches (py ''Fetched_Images'') (hexdigest (md5 [1, 2, 3])) scan_world (py ''b.png'')
   \<and> fst (is_duplicate_image (py ''Fetched_Images'') [1, 2, 3] scan_world)
       = Inr (True, Some (py ''b.png''))"
proof -
  let ?d = "[py ''Fetched_Images'']"
  have c: "cwd scan_world = []" by (simp add: scan_world_def)
  have f: "fs scan_world =
            [([py ''Fetched_Images''], Dir),
             ([py ''Fetched_Images'', py ''a.png''], File [7] False True),
             ([py ''Fetched_Images'', py ''b.png''], File [1, 2, 3] True True)]"
    by (simp add: scan_world_def)
  have d: "isdir (fs scan_world) ?d" by (simp add: isdir_def f)
  have va: "valid_name (py ''a.png'')" and vb: "valid_name (py ''b.png'')"
    by (simp_all add: valid_name_def py_def)
  have l: "listing (fs scan_world) ?d = [py ''a.png'', py ''b.png'']"
    by (simp add: listing_def f)
  have ls: "fst (os_listdir (py ''Fetched_Images'') scan_world)
              = Inr ([] @ py ''a.png'' # [py ''b.png''])"
    using os_listdir_resolved [OF resolve_Fetched_Images [OF c] d] by (simp add: l)
  note ra = resolve_join [OF resolve_Fetched_Images [OF c] d va]
  have ab: "py ''a.png'' \<noteq> py ''b.png''" by (simp add: py_def)
  have isf: "fst (os_path_isfile (os_path_join (py ''Fetched_Images'') (py ''a.png''))
                    scan_world)"
    by (simp add: os_path_isfile_def ra f)
  have err: "fst (read_file (os_path_join (py ''Fetched_Images'') (py ''a.png'')) scan_world)
               = Inl OSError"
    by (simp add: read_file_def ra f)
  have mb: "file_matches (py ''Fetched_Images'') (hexdigest (md5 [1, 2, 3])) scan_world
              (py ''b.png'')"
    using ab
    by (simp add: file_matches_resolved [OF resolve_Fetched_Images [OF c] d vb] f)
  have sc: "fst (scan (py ''Fetched_Images'') (hexdigest (md5 [1, 2, 3])) ([] @ [py ''b.png''])
                   scan_world) = Inr (True, Some (py ''b.png''))"
    using conjunct1 [OF scan_spec [of "py ''Fetched_Images''" "hexdigest (md5 [1, 2, 3])"
          "[] @ [py ''b.png'']" scan_world]] mb
    by simp
  from read_error_does_not_abort_scan [OF ls isf err, of "[1, 2, 3]"] show ?thesis
    using ls isf err mb sc by simp
qed

section \<open>Idempotence\<close>




end
